theory Spec2Isabelle
  imports
    Complex_Main
    "HOL-Library.List_Lexorder"
    "HOL-Library.Char_ord"
    "HOL-Library.Product_Lexorder"
    "HOL-Library.Sublist"
    "HOL-Library.Multiset"
begin

section \<open>Python values used by the scripts\<close>

text \<open>
  The scripts under \<^verbatim>\<open>scripts/lib\<close> compute with Python floats, strings, lists and
  dicts.  A finite float is read as the real number it denotes; comparisons of floats are
  exact, so \<open>\<le>\<close> and \<open><\<close> on \<^typ>\<open>real\<close> are the comparisons of the code.  The
  results of float division and of \<^verbatim>\<open>round\<close> are taken unrounded to the float grid.  NaN
  and the infinities are not values of the model, so neither is what the code does with
  them (every comparison with NaN is false, \<^verbatim>\<open>int\<close> of NaN or of an infinity
  raises).  A string is a list of bytes, a dict
  whose keys are enumerated is an association list in insertion order (looked up with
  \<^const>\<open>map_of\<close>), a dict that is only looked up and updated is a map.  Every exception
  the modelled code can raise is a value of \<open>py_error\<close>, returned on the left of a sum.
\<close>

datatype py_error = ValueError | IndexError | KeyError | ZeroDivisionError | SystemExit int

type_synonym 'a dict = "(string \<times> 'a) list"

text \<open>\<^verbatim>\<open>d.get(k, default)\<close> on an association list.\<close>

definition dict_get :: "'a dict \<Rightarrow> string \<Rightarrow> 'a \<Rightarrow> 'a" where
  "dict_get d k dflt = (case map_of d k of None \<Rightarrow> dflt | Some v \<Rightarrow> v)"

text \<open>\<^verbatim>\<open>a / b\<close>: true division raises on a zero divisor.\<close>

definition py_div :: "real \<Rightarrow> real \<Rightarrow> py_error + real" where
  "py_div a b = (if b = 0 then Inl ZeroDivisionError else Inr (a / b))"

text \<open>\<^verbatim>\<open>xs[i]\<close>: a negative index counts from the end, an index out of range raises.\<close>

definition py_index :: "'a list \<Rightarrow> int \<Rightarrow> py_error + 'a" where
  "py_index xs i =
     (if 0 \<le> i \<and> i < int (length xs) then Inr (xs ! nat i)
      else if i < 0 \<and> - int (length xs) \<le> i then Inr (xs ! nat (int (length xs) + i))
      else Inl IndexError)"

text \<open>\<^verbatim>\<open>int(x)\<close> of a float truncates towards zero.\<close>

definition py_int :: "real \<Rightarrow> int" where
  "py_int x = (if 0 \<le> x then \<lfloor>x\<rfloor> else \<lceil>x\<rceil>)"

text \<open>\<^verbatim>\<open>round(x, n)\<close>: to \<open>n\<close> decimal places, a tie going to the even neighbour.\<close>

definition py_round :: "real \<Rightarrow> nat \<Rightarrow> real" where
  "py_round x n =
     (let s = x * 10 ^ n; f = \<lfloor>s\<rfloor>; d = s - of_int f
      in of_int (if d < 1 / 2 then f else if 1 / 2 < d then f + 1
                 else if even f then f else f + 1) / 10 ^ n)"

text \<open>
  The characters \<^verbatim>\<open>str.split()\<close> and \<^verbatim>\<open>str.strip()\<close> treat as whitespace, within ASCII:
  tab, line feed, vertical tab, form feed, carriage return, the four separators
  \<^verbatim>\<open>0x1c\<close> to \<^verbatim>\<open>0x1f\<close>, and the space.
\<close>

definition is_space :: "char \<Rightarrow> bool" where
  "is_space c = (c \<in> set [CHR 0x09, CHR 0x0A, CHR 0x0B, CHR 0x0C, CHR 0x0D,
                            CHR 0x1C, CHR 0x1D, CHR 0x1E, CHR 0x1F, CHR '' ''])"

definition py_strip :: "string \<Rightarrow> string" where
  "py_strip s = rev (dropWhile is_space (rev (dropWhile is_space s)))"

text \<open>
  \<^verbatim>\<open>s.split()\<close>: the maximal runs of non-whitespace characters, in order.  The first
  argument is the run being read.
\<close>

fun split_ws :: "string \<Rightarrow> string \<Rightarrow> string list" where
  "split_ws cur [] = (if cur = [] then [] else [cur])"
| "split_ws cur (c # cs) =
     (if is_space c then (if cur = [] then split_ws [] cs else cur # split_ws [] cs)
      else split_ws (cur @ [c]) cs)"

definition py_split :: "string \<Rightarrow> string list" where
  "py_split s = split_ws [] s"

text \<open>\<^verbatim>\<open>tok.split("=", 1)\<close> for a token that contains \<^verbatim>\<open>=\<close>: cut at the first one.\<close>

definition split_eq :: "string \<Rightarrow> string \<times> string" where
  "split_eq tok =
     (takeWhile (\<lambda>c. c \<noteq> CHR ''='') tok, tl (dropWhile (\<lambda>c. c \<noteq> CHR ''='') tok))"

text \<open>
  The builtin \<^verbatim>\<open>float(v)\<close> is a parameter \<open>pf\<close> of the functions that call it:
  \<open>pf v = None\<close> stands for the \<^verbatim>\<open>ValueError\<close> it raises on a string that is no number.
  \<open>float_plain\<close> is its behaviour on plain decimal literals: an optional sign, digits,
  and an optional point followed by digits, with a digit somewhere.  The builtin
  accepts more (exponents, \<^verbatim>\<open>inf\<close>, \<^verbatim>\<open>nan\<close>, underscores between digits); the statements
  below therefore hold for every \<open>pf\<close>, and \<open>float_plain\<close> only instantiates them.
\<close>

definition is_digit :: "char \<Rightarrow> bool" where
  "is_digit c = (CHR ''0'' \<le> c \<and> c \<le> CHR ''9'')"

definition digits_val :: "string \<Rightarrow> nat" where
  "digits_val ds = foldl (\<lambda>acc c. 10 * acc + (of_char c - 48)) 0 ds"

definition unsigned_plain :: "string \<Rightarrow> real option" where
  "unsigned_plain s =
     (let ip = takeWhile is_digit s; rest = dropWhile is_digit s
      in case rest of
           [] \<Rightarrow> if ip = [] then None else Some (real (digits_val ip))
         | c # fp \<Rightarrow>
             if c = CHR ''.'' \<and> list_all is_digit fp \<and> (ip \<noteq> [] \<or> fp \<noteq> [])
             then Some (real (digits_val ip) + real (digits_val fp) / 10 ^ length fp)
             else None)"

definition float_plain :: "string \<Rightarrow> real option" where
  "float_plain s =
     (case s of
        [] \<Rightarrow> None
      | c # r \<Rightarrow>
          if c = CHR ''-'' then map_option uminus (unsigned_plain r)
          else if c = CHR ''+'' then unsigned_plain r
          else unsigned_plain s)"

section \<open>\<^verbatim>\<open>bottleneck.py\<close>: threshold overrides\<close>

definition DEFAULT_THRESHOLDS :: "string \<rightharpoonup> real" where
  "DEFAULT_THRESHOLDS =
     [''cpu'' \<mapsto> 0.3, ''heap_pct'' \<mapsto> 0.75, ''gc'' \<mapsto> 0.03,
      ''threads'' \<mapsto> 60, ''err_pct'' \<mapsto> 2.0, ''latency_ms'' \<mapsto> 500]"

text \<open>
  The loop of \<^verbatim>\<open>parse_thresholds\<close> over the tokens.  A token without \<^verbatim>\<open>=\<close> and a
  token whose key is not in the dict are passed over; only then is the value given to
  \<^verbatim>\<open>float\<close>, whose \<^verbatim>\<open>ValueError\<close> ends the function.
\<close>

fun apply_tokens ::
  "(string \<Rightarrow> real option) \<Rightarrow> string list \<Rightarrow> (string \<rightharpoonup> real) \<Rightarrow> py_error + (string \<rightharpoonup> real)"
where
  "apply_tokens pf [] thresholds = Inr thresholds"
| "apply_tokens pf (tok # toks) thresholds =
     (if CHR ''='' \<in> set tok then
        (case split_eq tok of
           (k, v) \<Rightarrow>
             if thresholds k \<noteq> None then
               (case pf v of
                  None \<Rightarrow> Inl ValueError
                | Some x \<Rightarrow> apply_tokens pf toks (thresholds(k \<mapsto> x)))
             else apply_tokens pf toks thresholds)
      else apply_tokens pf toks thresholds)"

definition parse_thresholds ::
  "(string \<Rightarrow> real option) \<Rightarrow> string \<Rightarrow> py_error + (string \<rightharpoonup> real)"
where
  "parse_thresholds pf threshold_str =
     apply_tokens pf (py_split (py_strip threshold_str)) DEFAULT_THRESHOLDS"

text \<open>Vocabulary for the statements about overrides.\<close>

definition known_keys :: "string set" where
  "known_keys = {''cpu'', ''heap_pct'', ''gc'', ''threads'', ''err_pct'', ''latency_ms''}"

definition tok_key :: "string \<Rightarrow> string" where
  "tok_key tok = fst (split_eq tok)"

definition tok_val :: "string \<Rightarrow> string" where
  "tok_val tok = snd (split_eq tok)"

text \<open>A token that sets the key \<open>k\<close>: it contains \<^verbatim>\<open>=\<close> and \<open>k\<close> stands before the first one.\<close>

definition sets_key :: "string \<Rightarrow> string \<Rightarrow> bool" where
  "sets_key k tok = (CHR ''='' \<in> set tok \<and> tok_key tok = k)"

text \<open>The tokens that override a threshold: those that set a known key.\<close>

definition overriding :: "string \<Rightarrow> bool" where
  "overriding tok = (CHR ''='' \<in> set tok \<and> tok_key tok \<in> known_keys)"

text \<open>The last token of a list that sets \<open>k\<close>, if there is one.\<close>

definition last_setting :: "string \<Rightarrow> string list \<Rightarrow> string option" where
  "last_setting k toks = find (sets_key k) (rev toks)"

section \<open>The \<^verbatim>\<open>api\<close> module\<close>

text \<open>
  Both scripts import \<^verbatim>\<open>SVC_MAP\<close>, \<^verbatim>\<open>REVERSE_MAP\<close>, \<^verbatim>\<open>prom_instant\<close> and
  \<^verbatim>\<open>pyro_top_functions\<close> from the module \<^verbatim>\<open>api\<close>, which performs the HTTP queries.
  The module is a parameter of the model: two lookup tables, the answer of the metrics
  backend to an instant query (a dict from entity to value, given the backend's address
  and the query), and the answer of the profiling backend (the top \<open>n\<close> functions of a
  service and profile kind, each with its name and its percentage).
\<close>

record api =
  SVC_MAP :: "string \<rightharpoonup> string"
  REVERSE_MAP :: "string \<rightharpoonup> string"
  prom_instant :: "string \<Rightarrow> string \<Rightarrow> real dict"
  pyro_top_functions :: "string \<Rightarrow> string \<Rightarrow> string \<Rightarrow> nat \<Rightarrow> (string \<times> real) list"

text \<open>The instant queries, as the scripts write them.\<close>

definition Q_CPU :: string where
  \<open>Q_CPU = ''rate(process_cpu_seconds_total{job="jvm"}[2m])''\<close>

definition Q_HEAP_USED :: string where
  \<open>Q_HEAP_USED = ''jvm_memory_used_bytes{job="jvm", area="heap"}''\<close>

definition Q_HEAP_MAX :: string where
  \<open>Q_HEAP_MAX = ''jvm_memory_max_bytes{job="jvm", area="heap"}''\<close>

definition Q_GC :: string where
  \<open>Q_GC = ''rate(jvm_gc_collection_seconds_sum{job="jvm"}[2m])''\<close>

definition Q_THREADS :: string where
  \<open>Q_THREADS = ''jvm_threads_current{job="jvm"}''\<close>

definition Q_REQ_RATE :: string where
  \<open>Q_REQ_RATE =
     ''sum by (instance) (rate(vertx_http_server_requests_total{job="vertx-apps"}[2m]))''\<close>

definition Q_ERR_RATE :: string where
  \<open>Q_ERR_RATE =
     ''sum by (instance) (rate(vertx_http_server_requests_total{job="vertx-apps", code=~"5.."}[2m]))''\<close>

definition Q_LAT_SUM :: string where
  \<open>Q_LAT_SUM =
     ''sum by (instance) (rate(vertx_http_server_response_time_seconds_sum{job="vertx-apps"}[2m]))''\<close>

definition Q_LAT_COUNT :: string where
  \<open>Q_LAT_COUNT =
     ''sum by (instance) (rate(vertx_http_server_response_time_seconds_count{job="vertx-apps"}[2m]))''\<close>

section \<open>Results shared by the two reports\<close>

text \<open>
  Both scripts emit one dict per service with the keys \<^verbatim>\<open>service\<close>,
  \<^verbatim>\<open>pyroscope_name\<close>, \<^verbatim>\<open>severity\<close> and \<^verbatim>\<open>metrics\<close>, and sort the list by the same
  key.  The common keys are a record that each script extends.
\<close>

record jvm_metrics =
  cpu_rate :: real
  heap_pct :: real
  gc_rate :: real
  threads :: int

record svc_result =
  service :: string
  pyroscope_name :: string
  severity :: string

text \<open>
  \<^verbatim>\<open>results.sort(key=lambda r: (order.get(r["severity"], 9), r["service"]))\<close>.
  The builtin sort is stable and ascending; tuples compare lexicographically and
  strings by their characters.  The rank table is the argument \<open>order\<close>.
\<close>

definition sort_results ::
  "(string \<Rightarrow> nat) \<Rightarrow> ('a svc_result_scheme) list \<Rightarrow> ('a svc_result_scheme) list"
where
  "sort_results order results = sort_key (\<lambda>r. (order (severity r), service r)) results"

text \<open>
  Sequencing of computations that may raise: \<open>and_then r f\<close> continues with \<open>f\<close> on
  the value of \<open>r\<close> and passes an exception on; \<open>for_each\<close> runs a loop body over a
  list and stops at the first exception.
\<close>

definition and_then :: "py_error + 'a \<Rightarrow> ('a \<Rightarrow> py_error + 'b) \<Rightarrow> py_error + 'b" where
  "and_then r f = (case r of Inl e \<Rightarrow> Inl e | Inr x \<Rightarrow> f x)"

fun for_each :: "('a \<Rightarrow> py_error + 'b) \<Rightarrow> 'a list \<Rightarrow> py_error + 'b list" where
  "for_each body [] = Inr []"
| "for_each body (x # xs) =
     and_then (body x) (\<lambda>y. and_then (for_each body xs) (\<lambda>ys. Inr (y # ys)))"

section \<open>\<^verbatim>\<open>bottleneck.py\<close>: the resolver\<close>

definition CPU_PROFILE :: string where
  "CPU_PROFILE = ''process_cpu:cpu:nanoseconds:cpu:nanoseconds''"

definition MEM_PROFILE :: string where
  "MEM_PROFILE = ''memory:alloc_in_new_tlab_bytes:bytes:space:bytes''"

definition MUTEX_PROFILE :: string where
  "MUTEX_PROFILE = ''mutex:contentions:count:mutex:count''"

record hotspot =
  function_name :: string
  self_pct :: real

text \<open>\<^verbatim>\<open>_pyro_top\<close>, with \<^verbatim>\<open>n\<close> at its default 3.\<close>

definition pyro_top :: "api \<Rightarrow> string \<Rightarrow> bool \<Rightarrow> string \<Rightarrow> string \<Rightarrow> hotspot list" where
  "pyro_top a pyroscope pyro_ok svc profile_id =
     (if \<not> pyro_ok then []
      else map (\<lambda>(f, pct).
                 \<lparr>function_name = map (\<lambda>c. if c = CHR ''/'' then CHR ''.'' else c) f,
                  self_pct = pct\<rparr>)
             (pyro_top_functions a pyroscope svc profile_id 3))"

text \<open>The nine snapshots \<^verbatim>\<open>analyze\<close> queries, each empty unless \<^verbatim>\<open>prom_ok\<close>.\<close>

record snapshots =
  s_cpu :: "real dict"
  s_heap_used :: "real dict"
  s_heap_max :: "real dict"
  s_gc :: "real dict"
  s_threads :: "real dict"
  s_req_rate :: "real dict"
  s_err_rate :: "real dict"
  s_lat_sum :: "real dict"
  s_lat_count :: "real dict"

definition query_snapshots :: "api \<Rightarrow> string \<Rightarrow> bool \<Rightarrow> snapshots" where
  "query_snapshots a prometheus prom_ok =
     (let q = (\<lambda>query. if prom_ok then prom_instant a prometheus query else [])
      in \<lparr>s_cpu = q Q_CPU, s_heap_used = q Q_HEAP_USED, s_heap_max = q Q_HEAP_MAX,
          s_gc = q Q_GC, s_threads = q Q_THREADS, s_req_rate = q Q_REQ_RATE,
          s_err_rate = q Q_ERR_RATE, s_lat_sum = q Q_LAT_SUM, s_lat_count = q Q_LAT_COUNT\<rparr>)"

text \<open>
  \<^verbatim>\<open>d.get(inst, d.get(svc, 0))\<close> with \<^verbatim>\<open>inst = "{}:8080".format(svc)\<close>: the HTTP
  metrics are keyed by instance, with the service name as fallback.
\<close>

definition get_inst :: "real dict \<Rightarrow> string \<Rightarrow> real" where
  "get_inst d svc = dict_get d (svc @ '':8080'') (dict_get d svc 0)"

text \<open>The derived ratios: each division is behind a test of its divisor.\<close>

definition heap_ratio :: "real \<Rightarrow> real \<Rightarrow> py_error + real" where
  "heap_ratio hu hm = (if hm > 0 then py_div hu hm else Inr 0)"

definition avg_latency :: "real \<Rightarrow> real \<Rightarrow> py_error + real" where
  "avg_latency ls lc = (if lc > 0 then and_then (py_div ls lc) (\<lambda>q. Inr (q * 1000)) else Inr 0)"

definition error_percent :: "real \<Rightarrow> real \<Rightarrow> py_error + real" where
  "error_percent er rr = (if rr > 0 then and_then (py_div er rr) (\<lambda>q. Inr (q * 100)) else Inr 0)"

text \<open>\<^verbatim>\<open>thresholds[k]\<close> raises \<^verbatim>\<open>KeyError\<close> on a missing key.\<close>

definition cutoff :: "(string \<rightharpoonup> real) \<Rightarrow> string \<Rightarrow> py_error + real" where
  "cutoff thresholds k = (case thresholds k of None \<Rightarrow> Inl KeyError | Some v \<Rightarrow> Inr v)"

type_synonym signal = "string \<times> real \<times> hotspot list"

text \<open>\<^verbatim>\<open>mutex_top and mutex_top[0]["self_pct"] > 5\<close>.\<close>

definition lock_contended :: "hotspot list \<Rightarrow> bool" where
  "lock_contended mutex_top = (case mutex_top of [] \<Rightarrow> False | m # _ \<Rightarrow> self_pct m > 5)"

text \<open>
  The list \<^verbatim>\<open>signals\<close> after the five tests, each appending at the end; the last test
  also asks that the list be empty.
\<close>

definition detect_signals ::
  "(string \<rightharpoonup> real) \<Rightarrow> real \<Rightarrow> real \<Rightarrow> real \<Rightarrow> real \<Rightarrow>
   hotspot list \<Rightarrow> hotspot list \<Rightarrow> hotspot list \<Rightarrow> py_error + signal list"
where
  "detect_signals thresholds c g hp avg_lat cpu_top mem_top mutex_top =
     and_then (cutoff thresholds ''cpu'') (\<lambda>t_cpu.
     let signals1 = (if c \<ge> t_cpu then [(''cpu-bound'', c, cpu_top)] else []) in
     and_then (cutoff thresholds ''gc'') (\<lambda>t_gc.
     let signals2 = signals1 @ (if g \<ge> t_gc then [(''gc-bound'', g, mem_top)] else []) in
     and_then (cutoff thresholds ''heap_pct'') (\<lambda>t_heap.
     let signals3 = signals2 @ (if hp \<ge> t_heap then [(''memory-pressure'', hp, mem_top)] else []);
         signals4 = signals3 @
           (if lock_contended mutex_top
            then [(''lock-bound'', self_pct (hd mutex_top), mutex_top)] else []) in
     and_then (cutoff thresholds ''latency_ms'') (\<lambda>t_lat.
     Inr (signals4 @
           (if avg_lat > t_lat \<and> signals4 = [] then [(''io-bound'', avg_lat, [])] else []))))))"

text \<open>
  The remediation texts are format templates; a constructor per template holds the
  values the template interpolates.
\<close>

datatype action =
    NoActionNeeded
  | OptimizeFunction string
  | ReduceAllocations string real
  | HeapAt real
  | ReduceLockScope string
  | AvgLatency real
  | InvestigateWith string

text \<open>\<^verbatim>\<open>x or default\<close> for an optional string: \<^verbatim>\<open>None\<close> and the empty string are falsy.\<close>

definition or_else :: "string option \<Rightarrow> string \<Rightarrow> string" where
  "or_else x dflt = (case x of None \<Rightarrow> dflt | Some s \<Rightarrow> if s = [] then dflt else s)"

text \<open>\<^verbatim>\<open>actions.get(verdict, ...)\<close> over the dict of the five templates.\<close>

definition action_for ::
  "string \<Rightarrow> string \<Rightarrow> string option \<Rightarrow> hotspot list \<Rightarrow> real \<Rightarrow> real \<Rightarrow> real \<Rightarrow> action"
where
  "action_for verdict pyro_name primary_function mem_top g hp avg_lat =
     (if verdict = ''cpu-bound'' then OptimizeFunction (or_else primary_function ''top CPU function'')
      else if verdict = ''gc-bound'' then
        ReduceAllocations (case mem_top of [] \<Rightarrow> ''top allocator'' | m # _ \<Rightarrow> function_name m) g
      else if verdict = ''memory-pressure'' then HeapAt hp
      else if verdict = ''lock-bound'' then
        ReduceLockScope (or_else primary_function ''contended method'')
      else if verdict = ''io-bound'' then AvgLatency avg_lat
      else InvestigateWith pyro_name)"

text \<open>
  The classification of one service: verdict, severity, primary function and action,
  from the list of signals.
\<close>

definition classify ::
  "(string \<rightharpoonup> real) \<Rightarrow> string \<Rightarrow> real \<Rightarrow> real \<Rightarrow> real \<Rightarrow> real \<Rightarrow>
   hotspot list \<Rightarrow> hotspot list \<Rightarrow> hotspot list \<Rightarrow>
   py_error + (string \<times> string \<times> string option \<times> action)"
where
  "classify thresholds pyro_name c g hp avg_lat cpu_top mem_top mutex_top =
     and_then (detect_signals thresholds c g hp avg_lat cpu_top mem_top mutex_top) (\<lambda>signals.
       case signals of
         [] \<Rightarrow> Inr (''healthy'', ''ok'', None, NoActionNeeded)
       | primary # _ \<Rightarrow>
           (let verdict = fst primary;
                severity = (if c \<ge> 0.8 \<or> hp \<ge> 0.85 \<or> g \<ge> 0.1
                            then ''critical'' else ''warning'');
                funcs = snd (snd primary);
                primary_function =
                  (case funcs of [] \<Rightarrow> None | f # _ \<Rightarrow> Some (function_name f))
            in Inr (verdict, severity, primary_function,
                    action_for verdict pyro_name primary_function mem_top g hp avg_lat)))"

record bottleneck_metrics = jvm_metrics +
  req_per_sec :: real
  err_pct :: real
  avg_latency_ms :: real

record verdict_result = svc_result +
  verdict :: string
  metrics :: bottleneck_metrics
  top_cpu :: "hotspot list"
  top_alloc :: "hotspot list"
  top_mutex :: "hotspot list"
  primary_function :: "string option"
  action :: action

text \<open>The body of the loop of \<^verbatim>\<open>analyze\<close> over the services.\<close>

definition analyze_service ::
  "api \<Rightarrow> string \<Rightarrow> bool \<Rightarrow> (string \<rightharpoonup> real) \<Rightarrow> snapshots \<Rightarrow> string \<Rightarrow>
   py_error + verdict_result"
where
  "analyze_service a pyroscope pyro_ok thresholds sn svc =
     (let pyro_name = (case SVC_MAP a svc of None \<Rightarrow> svc | Some n \<Rightarrow> n);
          c = dict_get (s_cpu sn) svc 0;
          hu = dict_get (s_heap_used sn) svc 0;
          hm = dict_get (s_heap_max sn) svc 0
      in and_then (heap_ratio hu hm) (\<lambda>hp.
     let g = dict_get (s_gc sn) svc 0;
         t = py_int (dict_get (s_threads sn) svc 0);
         rr = get_inst (s_req_rate sn) svc;
         er = get_inst (s_err_rate sn) svc;
         ls = get_inst (s_lat_sum sn) svc;
         lc = get_inst (s_lat_count sn) svc
     in and_then (avg_latency ls lc) (\<lambda>avg_lat.
        and_then (error_percent er rr) (\<lambda>err_pct.
     let cpu_top = pyro_top a pyroscope pyro_ok pyro_name CPU_PROFILE;
         mem_top = pyro_top a pyroscope pyro_ok pyro_name MEM_PROFILE;
         mutex_top = pyro_top a pyroscope pyro_ok pyro_name MUTEX_PROFILE
     in and_then (classify thresholds pyro_name c g hp avg_lat cpu_top mem_top mutex_top)
          (\<lambda>(verdict, severity, primary_function, action).
             Inr \<lparr>service = svc, pyroscope_name = pyro_name, severity = severity,
                  verdict = verdict,
                  metrics = \<lparr>cpu_rate = py_round c 3, heap_pct = py_round hp 3,
                             gc_rate = py_round g 4, threads = t,
                             req_per_sec = py_round rr 1, err_pct = py_round err_pct 1,
                             avg_latency_ms = py_round avg_lat 1\<rparr>,
                  top_cpu = take 1 cpu_top, top_alloc = take 1 mem_top,
                  top_mutex = take 1 mutex_top,
                  primary_function = primary_function, action = action\<rparr>)))))"

text \<open>\<^verbatim>\<open>order = {"critical": 0, "warning": 1, "ok": 2}\<close> read with \<^verbatim>\<open>order.get(s, 9)\<close>.\<close>

definition order_rank :: "string \<Rightarrow> nat" where
  "order_rank s =
     (if s = ''critical'' then 0 else if s = ''warning'' then 1 else if s = ''ok'' then 2 else 9)"

definition analyze ::
  "api \<Rightarrow> string \<Rightarrow> string \<Rightarrow> bool \<Rightarrow> bool \<Rightarrow> string \<Rightarrow> (string \<rightharpoonup> real) \<Rightarrow>
   py_error + verdict_result list"
where
  "analyze a prometheus pyroscope prom_ok pyro_ok service_filter thresholds =
     (let sn = query_snapshots a prometheus prom_ok;
          services = sort (remdups (map fst (s_cpu sn)));
          services =
            (if service_filter \<noteq> [] then
               (let container = (case REVERSE_MAP a service_filter of
                                   None \<Rightarrow> service_filter | Some n \<Rightarrow> n)
                in filter (\<lambda>s. s = container) services)
             else services)
      in and_then (for_each (analyze_service a pyroscope pyro_ok thresholds sn) services)
           (\<lambda>results. Inr (sort_results order_rank results)))"

text \<open>The report of \<^verbatim>\<open>main\<close>, without its timestamp.\<close>

record summary =
  total :: nat
  critical :: nat
  warning :: nat
  healthy :: nat

record report =
  report_thresholds :: "string \<rightharpoonup> real"
  services :: "verdict_result list"
  report_summary :: summary

definition summarize :: "verdict_result list \<Rightarrow> summary" where
  "summarize results =
     \<lparr>total = length results,
      critical = length (filter (\<lambda>r. severity r = ''critical'') results),
      warning = length (filter (\<lambda>r. severity r = ''warning'') results),
      healthy = length (filter (\<lambda>r. verdict r = ''healthy'') results)\<rparr>"

definition bottleneck_main ::
  "(string \<Rightarrow> real option) \<Rightarrow> api \<Rightarrow> string \<Rightarrow> string \<Rightarrow> bool \<Rightarrow> bool \<Rightarrow> string \<Rightarrow> string \<Rightarrow>
   py_error + report"
where
  "bottleneck_main pf a prometheus_url pyroscope_url prom_ok pyro_ok service_filter threshold_str =
     and_then (parse_thresholds pf threshold_str) (\<lambda>thresholds.
     and_then (analyze a prometheus_url pyroscope_url prom_ok pyro_ok service_filter thresholds)
       (\<lambda>results.
          Inr \<lparr>report_thresholds = thresholds, services = results,
               report_summary = summarize results\<rparr>))"

text \<open>
  Vocabulary for the statements about the resolver: the order in which the signals are
  tested, the kinds of a list of signals, and an entry of a snapshot that is missing or
  zero (for the HTTP metrics, under the instance key or else under the service name).
\<close>

definition signal_order :: "string list" where
  "signal_order = [''cpu-bound'', ''gc-bound'', ''memory-pressure'', ''lock-bound'', ''io-bound'']"

definition kinds :: "signal list \<Rightarrow> string list" where
  "kinds signals = map fst signals"

definition zero_or_absent :: "real dict \<Rightarrow> string \<Rightarrow> bool" where
  "zero_or_absent d k = (case map_of d k of None \<Rightarrow> True | Some v \<Rightarrow> v = 0)"

definition inst_zero_or_absent :: "real dict \<Rightarrow> string \<Rightarrow> bool" where
  "inst_zero_or_absent d svc =
     (case map_of d (svc @ '':8080'') of None \<Rightarrow> zero_or_absent d svc | Some v \<Rightarrow> v = 0)"

section \<open>\<^verbatim>\<open>jvm_health.py\<close>: the health evaluation\<close>

text \<open>
  The table \<^verbatim>\<open>THRESHOLDS\<close> has one warn/crit pair for each of four metrics; its keys
  are the constructors of \<open>metric\<close>.
\<close>

datatype metric = CpuRate | HeapPct | GcRate | Threads

record cutoffs =
  warn :: real
  crit :: real

fun THRESHOLDS :: "metric \<Rightarrow> cutoffs" where
  "THRESHOLDS CpuRate = \<lparr>warn = 0.5, crit = 0.8\<rparr>"
| "THRESHOLDS HeapPct = \<lparr>warn = 0.70, crit = 0.85\<rparr>"
| "THRESHOLDS GcRate = \<lparr>warn = 0.03, crit = 0.10\<rparr>"
| "THRESHOLDS Threads = \<lparr>warn = 50, crit = 100\<rparr>"

text \<open>
  An issue is a pair of a level and a message.  The message is a format template per
  metric; \<open>Message m v t\<close> holds the metric, the value and the cutoff it interpolates.
\<close>

datatype message = Message metric real real

type_synonym issue = "string \<times> message"

text \<open>\<^verbatim>\<open>d[k] = v\<close> on an association list.\<close>

fun dict_set :: "string \<Rightarrow> 'a \<Rightarrow> 'a dict \<Rightarrow> 'a dict" where
  "dict_set k v [] = [(k, v)]"
| "dict_set k v ((k', v') # d) = (if k' = k then (k, v) # d else (k', v') # dict_set k v d)"

text \<open>\<^verbatim>\<open>d[k]\<close> on an association list.\<close>

definition dict_item :: "'a dict \<Rightarrow> string \<Rightarrow> py_error + 'a" where
  "dict_item d k = (case map_of d k of None \<Rightarrow> Inl KeyError | Some v \<Rightarrow> Inr v)"

text \<open>
  The loop that fills \<^verbatim>\<open>heap_pct\<close>: a service gets an entry only if \<^verbatim>\<open>heap_max\<close> has
  it with a positive value.  The second argument lists the keys of \<^verbatim>\<open>heap_used\<close> still
  to visit, the last the dict \<^verbatim>\<open>heap_pct\<close> built so far.
\<close>

fun heap_pct_loop ::
  "real dict \<Rightarrow> real dict \<Rightarrow> string list \<Rightarrow> real dict \<Rightarrow> py_error + real dict"
where
  "heap_pct_loop heap_used heap_max [] pcts = Inr pcts"
| "heap_pct_loop heap_used heap_max (svc # svcs) pcts =
     (case map_of heap_max svc of
        None \<Rightarrow> heap_pct_loop heap_used heap_max svcs pcts
      | Some hm \<Rightarrow>
          if hm > 0 then
            and_then (dict_item heap_used svc) (\<lambda>hu.
            and_then (py_div hu hm) (\<lambda>q.
              heap_pct_loop heap_used heap_max svcs (dict_set svc q pcts)))
          else heap_pct_loop heap_used heap_max svcs pcts)"

definition heap_pct_table :: "real dict \<Rightarrow> real dict \<Rightarrow> py_error + real dict" where
  "heap_pct_table heap_used heap_max =
     heap_pct_loop heap_used heap_max (remdups (map fst heap_used)) []"

text \<open>One \<^verbatim>\<open>if\<close>/\<^verbatim>\<open>elif\<close> pair of the loop body: what it appends to \<^verbatim>\<open>issues\<close>.\<close>

definition check_metric :: "metric \<Rightarrow> real \<Rightarrow> real \<Rightarrow> issue list" where
  "check_metric m v shown =
     (let t = THRESHOLDS m in
      if v \<ge> crit t then [(''CRITICAL'', Message m shown (crit t))]
      else if v \<ge> warn t then [(''WARNING'', Message m shown (warn t))]
      else [])"

record health_metrics = jvm_metrics +
  heap_used_mb :: real
  heap_max_mb :: real

record health_result = svc_result +
  h_metrics :: health_metrics
  issues :: "issue list"

text \<open>The body of the loop of \<^verbatim>\<open>main\<close> over the services.\<close>

definition evaluate_service ::
  "api \<Rightarrow> real dict \<Rightarrow> real dict \<Rightarrow> real dict \<Rightarrow> real dict \<Rightarrow> real dict \<Rightarrow> real dict \<Rightarrow>
   string \<Rightarrow> health_result"
where
  "evaluate_service a cpu_rate_d heap_pct_d heap_used heap_max gc_rate_d threads_d svc =
     (let cpu = dict_get cpu_rate_d svc 0;
          issues1 = check_metric CpuRate cpu cpu;
          hp = dict_get heap_pct_d svc 0;
          issues2 = issues1 @ check_metric HeapPct hp hp;
          gc = dict_get gc_rate_d svc 0;
          issues3 = issues2 @ check_metric GcRate gc gc;
          th = dict_get threads_d svc 0;
          issues4 = issues3 @ check_metric Threads th (of_int (py_int th));
          sev = (if list_ex (\<lambda>(s, _). s = ''CRITICAL'') issues4 then ''CRITICAL''
                 else if list_ex (\<lambda>(s, _). s = ''WARNING'') issues4 then ''WARNING''
                 else ''OK'')
      in \<lparr>service = svc,
          pyroscope_name = (case SVC_MAP a svc of None \<Rightarrow> svc | Some n \<Rightarrow> n),
          severity = sev,
          h_metrics = \<lparr>cpu_rate = py_round cpu 3, heap_pct = py_round hp 3,
                       gc_rate = py_round gc 4, threads = py_int th,
                       heap_used_mb = py_round (dict_get heap_used svc 0 / 1024 / 1024) 1,
                       heap_max_mb = py_round (dict_get heap_max svc 0 / 1024 / 1024) 1\<rparr>,
          issues = issues4\<rparr>)"

text \<open>\<^verbatim>\<open>order = {"CRITICAL": 0, "WARNING": 1, "OK": 2}\<close> read with \<^verbatim>\<open>order.get(s, 9)\<close>.\<close>

definition health_order_rank :: "string \<Rightarrow> nat" where
  "health_order_rank s =
     (if s = ''CRITICAL'' then 0 else if s = ''WARNING'' then 1 else if s = ''OK'' then 2 else 9)"

text \<open>
  \<^verbatim>\<open>main\<close> up to the sorted list of results; without any service it prints an error
  and leaves with \<^verbatim>\<open>sys.exit(1)\<close>.
\<close>

definition health_main :: "api \<Rightarrow> string \<Rightarrow> py_error + health_result list" where
  "health_main a prometheus =
     (let cpu_rate_d = prom_instant a prometheus Q_CPU;
          heap_used = prom_instant a prometheus Q_HEAP_USED;
          heap_max = prom_instant a prometheus Q_HEAP_MAX;
          gc_rate_d = prom_instant a prometheus Q_GC;
          threads_d = prom_instant a prometheus Q_THREADS
      in and_then (heap_pct_table heap_used heap_max) (\<lambda>heap_pct_d.
         let all_svcs = sort (remdups (map fst cpu_rate_d @ map fst heap_pct_d
                                        @ map fst gc_rate_d @ map fst threads_d))
         in if all_svcs = [] then Inl (SystemExit 1)
            else Inr (sort_results health_order_rank
                        (map (evaluate_service a cpu_rate_d heap_pct_d heap_used heap_max
                                gc_rate_d threads_d) all_svcs))))"

text \<open>
  Vocabulary for the statements about the evaluation: the metric an issue is about, and
  the value the loop body reads for a metric of a service.
\<close>

definition issue_metric :: "issue \<Rightarrow> metric" where
  "issue_metric i = (case snd i of Message m v t \<Rightarrow> m)"

definition reading ::
  "real dict \<Rightarrow> real dict \<Rightarrow> real dict \<Rightarrow> real dict \<Rightarrow> string \<Rightarrow> metric \<Rightarrow> real"
where
  "reading cpu_rate_d heap_pct_d gc_rate_d threads_d svc m =
     (case m of
        CpuRate \<Rightarrow> dict_get cpu_rate_d svc 0
      | HeapPct \<Rightarrow> dict_get heap_pct_d svc 0
      | GcRate \<Rightarrow> dict_get gc_rate_d svc 0
      | Threads \<Rightarrow> dict_get threads_d svc 0)"

section \<open>\<^verbatim>\<open>parse_flamegraph.py\<close>: self-time per function\<close>

record flamebearer =
  names :: "string list"
  levels :: "int list list"
  numTicks :: int

text \<open>
  The \<^verbatim>\<open>while\<close> loop over one level, from index \<open>i\<close>, with the dict \<^verbatim>\<open>self_map\<close>
  built so far.  The test before \<^verbatim>\<open>names[name_idx]\<close> bounds the index from above only.
\<close>

function level_loop ::
  "string list \<Rightarrow> int list \<Rightarrow> nat \<Rightarrow> int dict \<Rightarrow> py_error + int dict"
where
  "level_loop nms level i self_map =
     (if i + 3 < length level then
        (let name_idx = level ! (i + 3);
             self_val = level ! (i + 2)
         in if name_idx < int (length nms) \<and> self_val > 0 then
              (case py_index nms name_idx of
                 Inl e \<Rightarrow> Inl e
               | Inr nm \<Rightarrow>
                   level_loop nms level (i + 4)
                     (dict_set nm (dict_get self_map nm 0 + self_val) self_map))
            else level_loop nms level (i + 4) self_map)
      else Inr self_map)"
  by pat_completeness auto
termination
  by (relation "measure (\<lambda>(nms, level, i, self_map). length level - i)") auto

text \<open>The \<^verbatim>\<open>for\<close> loop over the levels.\<close>

fun levels_loop :: "string list \<Rightarrow> int list list \<Rightarrow> int dict \<Rightarrow> py_error + int dict" where
  "levels_loop nms [] self_map = Inr self_map"
| "levels_loop nms (level # rest) self_map =
     and_then (level_loop nms level 0 self_map) (levels_loop nms rest)"

definition self_times :: "string list \<Rightarrow> int list list \<Rightarrow> py_error + int dict" where
  "self_times nms lvls = levels_loop nms lvls []"

text \<open>
  \<^verbatim>\<open>main\<close> up to the dict of self-times: a profile without ticks is reported as
  having no data (\<open>None\<close>) before any level is read.
\<close>

definition flamegraph_main :: "flamebearer \<Rightarrow> py_error + int dict option" where
  "flamegraph_main fb =
     (if numTicks fb = 0 then Inr None
      else and_then (self_times (names fb) (levels fb)) (\<lambda>m. Inr (Some m)))"

text \<open>
  What the decoder is to compute, in the words of its description: the complete groups
  of four of a level, the groups that count (positive self value, name index within
  \<open>names\<close>), and the sum of their self values for a name.
\<close>

fun groups_of_4 :: "int list \<Rightarrow> (int \<times> int \<times> int \<times> int) list" where
  "groups_of_4 (a # b # c # d # rest) = (a, b, c, d) # groups_of_4 rest"
| "groups_of_4 _ = []"

definition counts_for :: "string list \<Rightarrow> string \<Rightarrow> int \<times> int \<times> int \<times> int \<Rightarrow> bool" where
  "counts_for nms nm grp =
     (case grp of (offset, tot, self_val, name_idx) \<Rightarrow>
        self_val > 0 \<and> 0 \<le> name_idx \<and> name_idx < int (length nms) \<and> nms ! nat name_idx = nm)"

definition group_self :: "int \<times> int \<times> int \<times> int \<Rightarrow> int" where
  "group_self grp = (case grp of (offset, tot, self_val, name_idx) \<Rightarrow> self_val)"

definition self_sum :: "string list \<Rightarrow> int list list \<Rightarrow> string \<Rightarrow> int" where
  "self_sum nms lvls nm =
     sum_list (map group_self (filter (counts_for nms nm) (concat (map groups_of_4 lvls))))"

text \<open>A group whose name index, if its self value is positive, is not negative.\<close>

definition index_not_negative :: "int \<times> int \<times> int \<times> int \<Rightarrow> bool" where
  "index_not_negative grp =
     (case grp of (offset, tot, self_val, name_idx) \<Rightarrow> self_val \<le> 0 \<or> 0 \<le> name_idx)"

section \<open>A small fleet for examples\<close>

text \<open>
  Three services as the backends might report them.  \<^verbatim>\<open>bank-api\<close> runs at a CPU rate
  of 0.9 and reports a heap maximum of zero; \<^verbatim>\<open>payments\<close> answers in 900 ms on
  average; \<^verbatim>\<open>ledger\<close> is idle.  The profiling backend knows one CPU hotspot.
\<close>

definition example_api :: api where
  "example_api =
     \<lparr>SVC_MAP = [''bank-api'' \<mapsto> ''bank-api-service''],
      REVERSE_MAP = [''bank-api-service'' \<mapsto> ''bank-api''],
      prom_instant = (\<lambda>url query.
        if query = Q_CPU then [(''payments'', 0.1), (''ledger'', 0.05), (''bank-api'', 0.9)]
        else if query = Q_HEAP_USED then [(''bank-api'', 52428800), (''ledger'', 10485760)]
        else if query = Q_HEAP_MAX then [(''bank-api'', 0), (''ledger'', 104857600)]
        else if query = Q_LAT_SUM then [(''payments:8080'', 9)]
        else if query = Q_LAT_COUNT then [(''payments:8080'', 10)]
        else []),
      pyro_top_functions = (\<lambda>url svc profile_id n.
        if svc = ''bank-api-service'' \<and> profile_id = CPU_PROFILE
        then take n [(''com/example/Foo.bar'', 40)] else [])\<rparr>"

section \<open>Threshold overrides: what \<^verbatim>\<open>parse_thresholds\<close> accepts\<close>

text \<open>Unfolding the tokenizer and the literal parser on concrete strings.\<close>

lemmas tok_eval = py_split_def py_strip_def is_space_def split_eq_def tok_key_def tok_val_def
  overriding_def known_keys_def sets_key_def last_setting_def
lemmas float_eval = float_plain_def unsigned_plain_def is_digit_def digits_val_def

lemma dom_DEFAULT_THRESHOLDS: "dom DEFAULT_THRESHOLDS = known_keys"
  by (auto simp: DEFAULT_THRESHOLDS_def known_keys_def split: if_splits)

lemma find_snoc:
  "find P (xs @ [x]) = (case find P xs of None \<Rightarrow> if P x then Some x else None | Some y \<Rightarrow> Some y)"
  by (induction xs) auto

lemma apply_tokens_step_hit:
  assumes "CHR ''='' \<in> set tok" "tok_key tok \<in> dom th" "pf (tok_val tok) = Some x"
  shows "apply_tokens pf (tok # toks) th = apply_tokens pf toks (th(tok_key tok \<mapsto> x))"
  using assms by (auto simp: tok_key_def tok_val_def split: prod.splits)

lemma apply_tokens_step_bad:
  assumes "CHR ''='' \<in> set tok" "tok_key tok \<in> dom th" "pf (tok_val tok) = None"
  shows "apply_tokens pf (tok # toks) th = Inl ValueError"
  using assms by (auto simp: tok_key_def tok_val_def split: prod.splits)

lemma apply_tokens_step_skip:
  assumes "\<not> (CHR ''='' \<in> set tok \<and> tok_key tok \<in> dom th)"
  shows "apply_tokens pf (tok # toks) th = apply_tokens pf toks th"
  using assms by (auto simp: tok_key_def split: prod.splits)

lemma apply_tokens_fails_iff:
  "apply_tokens pf toks th = Inl e \<longleftrightarrow>
     e = ValueError \<and>
     (\<exists>tok\<in>set toks. CHR ''='' \<in> set tok \<and> tok_key tok \<in> dom th \<and> pf (tok_val tok) = None)"
proof (induction toks arbitrary: th)
  case Nil
  show ?case by simp
next
  case (Cons tok toks)
  show ?case
  proof (cases "CHR ''='' \<in> set tok \<and> tok_key tok \<in> dom th")
    case False
    then show ?thesis
      using Cons.IH[of th] by (auto simp: apply_tokens_step_skip[OF False] simp del: apply_tokens.simps)
  next
    case True
    show ?thesis
    proof (cases "pf (tok_val tok)")
      case None
      with True show ?thesis
        by (auto simp: apply_tokens_step_bad simp del: apply_tokens.simps)
    next
      case (Some x)
      have d: "dom (th(tok_key tok \<mapsto> x)) = dom th" using True by auto
      have step: "apply_tokens pf (tok # toks) th = apply_tokens pf toks (th(tok_key tok \<mapsto> x))"
        using True Some by (simp add: apply_tokens_step_hit del: apply_tokens.simps)
      note ih = Cons.IH[of "th(tok_key tok \<mapsto> x)", unfolded d]
      show ?thesis unfolding step ih using Some by auto
    qed
  qed
qed

lemma apply_tokens_filter:
  "apply_tokens pf (filter (\<lambda>tok. CHR ''='' \<in> set tok \<and> tok_key tok \<in> dom th) toks) th
     = apply_tokens pf toks th"
proof (induction toks arbitrary: th)
  case Nil
  show ?case by simp
next
  case (Cons tok toks)
  show ?case
  proof (cases "CHR ''='' \<in> set tok \<and> tok_key tok \<in> dom th")
    case False
    then show ?thesis
      using Cons.IH[of th] by (simp add: apply_tokens_step_skip[OF False] del: apply_tokens.simps)
  next
    case True
    show ?thesis
    proof (cases "pf (tok_val tok)")
      case None
      with True show ?thesis
        by (simp add: apply_tokens_step_bad del: apply_tokens.simps)
    next
      case (Some x)
      have d: "dom (th(tok_key tok \<mapsto> x)) = dom th" using True by auto
      have step: "\<And>ts. apply_tokens pf (tok # ts) th = apply_tokens pf ts (th(tok_key tok \<mapsto> x))"
        using True Some by (simp add: apply_tokens_step_hit del: apply_tokens.simps)
      have flt: "filter (\<lambda>t. CHR ''='' \<in> set t \<and> tok_key t \<in> dom th) (tok # toks)
                 = tok # filter (\<lambda>t. CHR ''='' \<in> set t \<and> tok_key t \<in> dom th) toks"
        using True by simp
      note ih = Cons.IH[of "th(tok_key tok \<mapsto> x)", unfolded d]
      show ?thesis unfolding flt step
        by (rule ih)
    qed
  qed
qed

lemma apply_tokens_ok:
  assumes "\<forall>tok\<in>set toks. CHR ''='' \<in> set tok \<and> tok_key tok \<in> dom th \<longrightarrow> pf (tok_val tok) \<noteq> None"
  shows "\<exists>th'. apply_tokens pf toks th = Inr th' \<and> dom th' = dom th \<and>
     (\<forall>k\<in>dom th. th' k = (case last_setting k toks of None \<Rightarrow> th k | Some tok \<Rightarrow> pf (tok_val tok)))"
  using assms
proof (induction toks arbitrary: th)
  case Nil
  then show ?case by (auto simp: last_setting_def)
next
  case (Cons tok toks)
  show ?case
  proof (cases "CHR ''='' \<in> set tok \<and> tok_key tok \<in> dom th")
    case True
    then obtain x where x: "pf (tok_val tok) = Some x" using Cons.prems by auto
    let ?th = "th(tok_key tok \<mapsto> x)"
    have d: "dom ?th = dom th" using True by auto
    have "\<forall>t\<in>set toks. CHR ''='' \<in> set t \<and> tok_key t \<in> dom ?th \<longrightarrow> pf (tok_val t) \<noteq> None"
      using Cons.prems d by auto
    from Cons.IH[OF this] obtain th' where
      th': "apply_tokens pf toks ?th = Inr th'" "dom th' = dom ?th"
      "\<forall>k\<in>dom ?th. th' k = (case last_setting k toks of None \<Rightarrow> ?th k | Some tok \<Rightarrow> pf (tok_val tok))"
      by blast
    have step: "apply_tokens pf (tok # toks) th = apply_tokens pf toks ?th"
      using True x by (simp add: apply_tokens_step_hit del: apply_tokens.simps)
    show ?thesis
      using th' d True x unfolding step
      by (auto simp: last_setting_def find_snoc sets_key_def split: option.splits)
  next
    case False
    have step: "apply_tokens pf (tok # toks) th = apply_tokens pf toks th"
      using False by (simp add: apply_tokens_step_skip del: apply_tokens.simps)
    have "\<forall>t\<in>set toks. CHR ''='' \<in> set t \<and> tok_key t \<in> dom th \<longrightarrow> pf (tok_val t) \<noteq> None"
      using Cons.prems by auto
    from Cons.IH[OF this] obtain th' where
      th': "apply_tokens pf toks th = Inr th'" "dom th' = dom th"
      "\<forall>k\<in>dom th. th' k = (case last_setting k toks of None \<Rightarrow> th k | Some tok \<Rightarrow> pf (tok_val tok))"
      by blast
    show ?thesis
      using th' False unfolding step
      by (auto simp: last_setting_def find_snoc sets_key_def split: option.splits)
  qed
qed

lemma overriding_dom: "overriding tok = (CHR ''='' \<in> set tok \<and> tok_key tok \<in> dom DEFAULT_THRESHOLDS)"
  by (simp add: overriding_def dom_DEFAULT_THRESHOLDS)

text \<open>
  Claim C8, as amended.  For every override string and every behaviour of \<^verbatim>\<open>float\<close>,
  \<^verbatim>\<open>parse_thresholds\<close> raises exactly when some token sets one of the six known keys
  to a value that \<^verbatim>\<open>float\<close> rejects; the exception is then \<^verbatim>\<open>ValueError\<close> and no
  thresholds are returned at all, whatever the other tokens are.  Tokens with unknown
  keys take no part in this: they are ignored, value included.
\<close>

theorem parse_thresholds_fails_iff:
  "(parse_thresholds pf s = Inl ValueError \<longleftrightarrow>
      (\<exists>tok\<in>set (py_split (py_strip s)). overriding tok \<and> pf (tok_val tok) = None))
   \<and> (\<forall>e. parse_thresholds pf s = Inl e \<longrightarrow> e = ValueError)"
  unfolding parse_thresholds_def overriding_dom
  by (simp add: apply_tokens_fails_iff)

text \<open>
  The statement at work: a bad value for the known key \<^verbatim>\<open>cpu\<close> fails the run although
  the token before it is fine, and two good values are accepted.
\<close>

theorem parse_thresholds_fails_iff_witness:
  "overriding ''cpu=abc'' \<and> float_plain (tok_val ''cpu=abc'') = None
   \<and> parse_thresholds float_plain ''gc=0.5 cpu=abc'' = Inl ValueError
   \<and> (\<exists>th. parse_thresholds float_plain ''gc=0.5 cpu=0.4'' = Inr th)"
proof -
  have a: "overriding ''cpu=abc''" by (simp add: tok_eval)
  have b: "float_plain (tok_val ''cpu=abc'') = None" by (simp add: tok_eval float_eval)
  have c: "''cpu=abc'' \<in> set (py_split (py_strip ''gc=0.5 cpu=abc''))" by (simp add: tok_eval)
  have d: "\<not> (\<exists>tok\<in>set (py_split (py_strip ''gc=0.5 cpu=0.4'')).
               overriding tok \<and> float_plain (tok_val tok) = None)"
    by (simp add: tok_eval float_eval)
  have "parse_thresholds float_plain ''gc=0.5 cpu=abc'' = Inl ValueError"
    using parse_thresholds_fails_iff[of float_plain "''gc=0.5 cpu=abc''"] a b c by blast
  moreover have "\<exists>th. parse_thresholds float_plain ''gc=0.5 cpu=0.4'' = Inr th"
    using parse_thresholds_fails_iff[of float_plain "''gc=0.5 cpu=0.4''"] d
    by (cases "parse_thresholds float_plain ''gc=0.5 cpu=0.4''") auto
  ultimately show ?thesis using a b by blast
qed

text \<open>
  Claim C8, as stated, asks that any value that is no number fail the evaluation.  The
  value \<^verbatim>\<open>abc\<close> of the unknown key \<^verbatim>\<open>foo\<close> is no number, and the defaults come back.
\<close>

theorem unknown_key_unparsable_value_is_skipped:
  "CHR ''='' \<in> set ''foo=abc'' \<and> float_plain (tok_val ''foo=abc'') = None
   \<and> parse_thresholds float_plain ''foo=abc'' = Inr DEFAULT_THRESHOLDS"
  by (simp add: parse_thresholds_def tok_eval float_eval DEFAULT_THRESHOLDS_def)

text \<open>
  Claim C9.  If every token that sets a known key has a value \<^verbatim>\<open>float\<close> accepts, then
  \<^verbatim>\<open>parse_thresholds\<close> returns, whatever the tokens with unknown keys or without
  \<^verbatim>\<open>=\<close> look like: the value of such a token is never parsed.  The dict returned has
  the six known keys; each holds the value of the last token that sets it, and its
  default if no token does.  Moreover the result, exception included, is the one obtained
  from the overriding tokens alone.
\<close>

theorem parse_thresholds_skips_unknown:
  assumes "\<forall>tok\<in>set (py_split (py_strip s)). overriding tok \<longrightarrow> pf (tok_val tok) \<noteq> None"
  shows "(\<exists>th. parse_thresholds pf s = Inr th \<and> dom th = known_keys \<and>
            (\<forall>k\<in>known_keys.
               th k = (case last_setting k (py_split (py_strip s)) of
                         None \<Rightarrow> DEFAULT_THRESHOLDS k
                       | Some tok \<Rightarrow> pf (tok_val tok))))
         \<and> parse_thresholds pf s =
             apply_tokens pf (filter overriding (py_split (py_strip s))) DEFAULT_THRESHOLDS"
proof -
  have "\<forall>tok\<in>set (py_split (py_strip s)).
          CHR ''='' \<in> set tok \<and> tok_key tok \<in> dom DEFAULT_THRESHOLDS \<longrightarrow> pf (tok_val tok) \<noteq> None"
    using assms by (simp add: overriding_dom)
  from apply_tokens_ok[OF this] have 1: "\<exists>th. parse_thresholds pf s = Inr th \<and> dom th = known_keys \<and>
            (\<forall>k\<in>known_keys.
               th k = (case last_setting k (py_split (py_strip s)) of
                         None \<Rightarrow> DEFAULT_THRESHOLDS k
                       | Some tok \<Rightarrow> pf (tok_val tok)))"
    unfolding parse_thresholds_def dom_DEFAULT_THRESHOLDS by blast
  have 2: "parse_thresholds pf s =
             apply_tokens pf (filter overriding (py_split (py_strip s))) DEFAULT_THRESHOLDS"
    unfolding parse_thresholds_def overriding_dom by (rule apply_tokens_filter[symmetric])
  from 1 2 show ?thesis by blast
qed

text \<open>
  The statement at work: an unknown key with a value that is no number, a token without
  \<^verbatim>\<open>=\<close>, and one override of \<^verbatim>\<open>cpu\<close>.
\<close>

theorem parse_thresholds_skips_unknown_witness:
  "float_plain (tok_val ''foo=abc'') = None
   \<and> py_split (py_strip '' foo=abc junk cpu=0.5 '') = [''foo=abc'', ''junk'', ''cpu=0.5'']
   \<and> (\<exists>th. parse_thresholds float_plain '' foo=abc junk cpu=0.5 '' = Inr th
         \<and> th ''cpu'' = Some (1 / 2) \<and> th ''gc'' = Some 0.03 \<and> th ''foo'' = None)"
proof -
  have t: "py_split (py_strip '' foo=abc junk cpu=0.5 '') = [''foo=abc'', ''junk'', ''cpu=0.5'']"
    by (simp add: tok_eval)
  have f: "float_plain ''0.5'' = Some (1 / 2)" by (simp add: float_eval)
  have h: "\<forall>tok\<in>set (py_split (py_strip '' foo=abc junk cpu=0.5 '')).
             overriding tok \<longrightarrow> float_plain (tok_val tok) \<noteq> None"
    unfolding t by (simp add: tok_eval f del: not_None_eq)
  from parse_thresholds_skips_unknown[OF h] obtain th where
    th: "parse_thresholds float_plain '' foo=abc junk cpu=0.5 '' = Inr th" "dom th = known_keys"
      "\<forall>k\<in>known_keys. th k = (case last_setting k (py_split (py_strip '' foo=abc junk cpu=0.5 '')) of
                         None \<Rightarrow> DEFAULT_THRESHOLDS k
                       | Some tok \<Rightarrow> float_plain (tok_val tok))"
    by blast
  have k: "''cpu'' \<in> known_keys" "''gc'' \<in> known_keys" by (simp_all add: known_keys_def)
  have "th ''cpu'' = Some (1 / 2)"
    unfolding bspec[OF th(3) k(1)] t by (simp add: tok_eval f)
  moreover have "th ''gc'' = Some 0.03"
    unfolding bspec[OF th(3) k(2)] t by (simp add: tok_eval DEFAULT_THRESHOLDS_def)
  moreover have "th ''foo'' = None"
  proof -
    have "''foo'' \<notin> known_keys" by (simp add: known_keys_def)
    then have "''foo'' \<notin> dom th" unfolding th(2) .
    then show ?thesis by (simp only: domIff not_not)
  qed
  moreover have "float_plain (tok_val ''foo=abc'') = None" by (simp add: tok_eval float_eval)
  ultimately show ?thesis using th(1) t by blast
qed


section \<open>The resolver: which signal becomes the verdict\<close>

lemma cutoff_Some: "thresholds k = Some v \<Longrightarrow> cutoff thresholds k = Inr v"
  by (simp add: cutoff_def)

lemma and_then_Inr: "and_then (Inr x) f = f x"
  by (simp add: and_then_def)

lemma and_then_Inl: "and_then (Inl e) f = Inl e"
  by (simp add: and_then_def)

text \<open>With its four cutoffs present, the detection is the concatenation of five tests.\<close>

lemma detect_signals_eq:
  assumes "thresholds ''cpu'' = Some t_cpu" "thresholds ''gc'' = Some t_gc"
    "thresholds ''heap_pct'' = Some t_heap" "thresholds ''latency_ms'' = Some t_lat"
  shows "detect_signals thresholds c g hp avg_lat cpu_top mem_top mutex_top =
     Inr ((if c \<ge> t_cpu then [(''cpu-bound'', c, cpu_top)] else [])
        @ (if g \<ge> t_gc then [(''gc-bound'', g, mem_top)] else [])
        @ (if hp \<ge> t_heap then [(''memory-pressure'', hp, mem_top)] else [])
        @ (if lock_contended mutex_top
           then [(''lock-bound'', self_pct (hd mutex_top), mutex_top)] else [])
        @ (if avg_lat > t_lat \<and> \<not> c \<ge> t_cpu \<and> \<not> g \<ge> t_gc \<and> \<not> hp \<ge> t_heap
               \<and> \<not> lock_contended mutex_top
           then [(''io-bound'', avg_lat, [])] else []))"
  using assms unfolding detect_signals_def
  by (simp add: cutoff_def and_then_def Let_def)

lemma classify_eq:
  assumes "detect_signals thresholds c g hp avg_lat cpu_top mem_top mutex_top = Inr signals"
  shows "\<exists>pfn act. classify thresholds pyro_name c g hp avg_lat cpu_top mem_top mutex_top =
     Inr (case signals of [] \<Rightarrow> ''healthy'' | s # _ \<Rightarrow> fst s,
          if signals = [] then ''ok''
          else if c \<ge> 0.8 \<or> hp \<ge> 0.85 \<or> g \<ge> 0.1 then ''critical'' else ''warning'',
          pfn, act)"
  unfolding classify_def assms and_then_Inr
  by (cases signals) (simp_all add: Let_def)

lemma detect_signals_props:
  assumes "thresholds ''cpu'' = Some t_cpu" "thresholds ''gc'' = Some t_gc"
    "thresholds ''heap_pct'' = Some t_heap" "thresholds ''latency_ms'' = Some t_lat"
  shows "\<exists>signals.
      detect_signals thresholds c g hp avg_lat cpu_top mem_top mutex_top = Inr signals
    \<and> subseq (kinds signals) signal_order
    \<and> (''cpu-bound'' \<in> set (kinds signals)) = (c \<ge> t_cpu)
    \<and> (''gc-bound'' \<in> set (kinds signals)) = (g \<ge> t_gc)
    \<and> (''memory-pressure'' \<in> set (kinds signals)) = (hp \<ge> t_heap)
    \<and> (''lock-bound'' \<in> set (kinds signals)) = lock_contended mutex_top
    \<and> (''io-bound'' \<in> set (kinds signals)) =
        (avg_lat > t_lat \<and> \<not> c \<ge> t_cpu \<and> \<not> g \<ge> t_gc \<and> \<not> hp \<ge> t_heap
         \<and> \<not> lock_contended mutex_top)
    \<and> (''io-bound'' \<in> set (kinds signals) \<longrightarrow> signals = [(''io-bound'', avg_lat, [])])
    \<and> (c \<ge> t_cpu \<longrightarrow> (\<exists>rest. signals = (''cpu-bound'', c, cpu_top) # rest))"
  unfolding detect_signals_eq[OF assms]
  by (auto simp: kinds_def signal_order_def)

text \<open>
  Claim C1.  With the four cutoffs in the thresholds, the detection returns a list whose
  kinds follow the fixed order cpu-bound, gc-bound, memory-pressure, lock-bound,
  io-bound; each of the first four is recorded exactly when its condition holds; and
  the verdict is the kind of the first signal of the list (\<^verbatim>\<open>healthy\<close> if it is
  empty).  So when the CPU rate and the GC rate both reach their cutoffs, both signals
  are recorded and the verdict is \<^verbatim>\<open>cpu-bound\<close>, not \<^verbatim>\<open>gc-bound\<close>: the magnitudes
  \<open>c\<close> and \<open>g\<close> are compared with the cutoffs only, never with each other.
\<close>

theorem verdict_is_first_signal:
  assumes "thresholds ''cpu'' = Some t_cpu" "thresholds ''gc'' = Some t_gc"
    "thresholds ''heap_pct'' = Some t_heap" "thresholds ''latency_ms'' = Some t_lat"
  shows "\<exists>signals v sev pfn act.
      detect_signals thresholds c g hp avg_lat cpu_top mem_top mutex_top = Inr signals
    \<and> classify thresholds pyro_name c g hp avg_lat cpu_top mem_top mutex_top
        = Inr (v, sev, pfn, act)
    \<and> subseq (kinds signals) signal_order
    \<and> (''cpu-bound'' \<in> set (kinds signals)) = (c \<ge> t_cpu)
    \<and> (''gc-bound'' \<in> set (kinds signals)) = (g \<ge> t_gc)
    \<and> (''memory-pressure'' \<in> set (kinds signals)) = (hp \<ge> t_heap)
    \<and> (''lock-bound'' \<in> set (kinds signals)) = lock_contended mutex_top
    \<and> v = (case signals of [] \<Rightarrow> ''healthy'' | s # _ \<Rightarrow> fst s)
    \<and> (c \<ge> t_cpu \<and> g \<ge> t_gc \<longrightarrow>
          v = ''cpu-bound'' \<and> v \<noteq> ''gc-bound'' \<and> ''gc-bound'' \<in> set (kinds signals))"
proof -
  from detect_signals_props[OF assms, of c g hp avg_lat cpu_top mem_top mutex_top]
  obtain signals where
    d: "detect_signals thresholds c g hp avg_lat cpu_top mem_top mutex_top = Inr signals"
    and p: "subseq (kinds signals) signal_order"
      "(''cpu-bound'' \<in> set (kinds signals)) = (c \<ge> t_cpu)"
      "(''gc-bound'' \<in> set (kinds signals)) = (g \<ge> t_gc)"
      "(''memory-pressure'' \<in> set (kinds signals)) = (hp \<ge> t_heap)"
      "(''lock-bound'' \<in> set (kinds signals)) = lock_contended mutex_top"
    and first: "c \<ge> t_cpu \<longrightarrow> (\<exists>rest. signals = (''cpu-bound'', c, cpu_top) # rest)"
    by blast
  from classify_eq[OF d, of pyro_name] obtain pfn act where
    cl: "classify thresholds pyro_name c g hp avg_lat cpu_top mem_top mutex_top =
     Inr (case signals of [] \<Rightarrow> ''healthy'' | s # _ \<Rightarrow> fst s,
          if signals = [] then ''ok''
          else if c \<ge> 0.8 \<or> hp \<ge> 0.85 \<or> g \<ge> 0.1 then ''critical'' else ''warning'',
          pfn, act)" by blast
  have 3: "c \<ge> t_cpu \<longrightarrow> (case signals of [] \<Rightarrow> ''healthy'' | s # _ \<Rightarrow> fst s) = ''cpu-bound''"
    using first by auto
  show ?thesis
    using d cl p 3 by auto
qed

text \<open>
  The statement at work, with the default thresholds: a CPU rate of 0.4 and a GC rate
  of 0.9, the larger magnitude, give the verdict \<^verbatim>\<open>cpu-bound\<close>.
\<close>

theorem verdict_is_first_signal_witness:
  "DEFAULT_THRESHOLDS ''cpu'' = Some 0.3 \<and> DEFAULT_THRESHOLDS ''gc'' = Some 0.03
   \<and> (0.4::real) \<ge> 0.3 \<and> (0.9::real) \<ge> 0.03
   \<and> (\<exists>sev pfn act. classify DEFAULT_THRESHOLDS ''svc'' 0.4 0.9 0 0 [] [] []
                       = Inr (''cpu-bound'', sev, pfn, act))"
proof -
  have k: "DEFAULT_THRESHOLDS ''cpu'' = Some 0.3" "DEFAULT_THRESHOLDS ''gc'' = Some 0.03"
    "DEFAULT_THRESHOLDS ''heap_pct'' = Some 0.75" "DEFAULT_THRESHOLDS ''latency_ms'' = Some 500"
    by (simp_all add: DEFAULT_THRESHOLDS_def)
  have m: "(0.4::real) \<ge> 0.3 \<and> (0.9::real) \<ge> 0.03" by simp
  from verdict_is_first_signal[OF k, where c="0.4" and g="0.9" and hp="0" and avg_lat="0" and cpu_top="[]" and mem_top="[]" and mutex_top="[]" and pyro_name="''svc''"] m
  show ?thesis using k by auto
qed

text \<open>
  Claim C2.  The signal \<^verbatim>\<open>io-bound\<close> is recorded exactly when the average latency is
  strictly above its cutoff and none of the four other conditions holds; it is then the
  only signal.  The verdict is \<^verbatim>\<open>io-bound\<close> exactly in that case, so it never is when
  one of cpu-bound, gc-bound, memory-pressure or lock-bound fired, whatever the latency.
\<close>

theorem io_bound_only_alone:
  assumes "thresholds ''cpu'' = Some t_cpu" "thresholds ''gc'' = Some t_gc"
    "thresholds ''heap_pct'' = Some t_heap" "thresholds ''latency_ms'' = Some t_lat"
  shows "\<exists>signals v sev pfn act.
      detect_signals thresholds c g hp avg_lat cpu_top mem_top mutex_top = Inr signals
    \<and> classify thresholds pyro_name c g hp avg_lat cpu_top mem_top mutex_top
        = Inr (v, sev, pfn, act)
    \<and> (''io-bound'' \<in> set (kinds signals)) =
        (avg_lat > t_lat \<and> \<not> c \<ge> t_cpu \<and> \<not> g \<ge> t_gc \<and> \<not> hp \<ge> t_heap
         \<and> \<not> lock_contended mutex_top)
    \<and> (v = ''io-bound'') = (''io-bound'' \<in> set (kinds signals))
    \<and> (''io-bound'' \<in> set (kinds signals) \<longrightarrow> signals = [(''io-bound'', avg_lat, [])])
    \<and> (c \<ge> t_cpu \<or> g \<ge> t_gc \<or> hp \<ge> t_heap \<or> lock_contended mutex_top
          \<longrightarrow> v \<noteq> ''io-bound'')"
proof -
  from detect_signals_props[OF assms, of c g hp avg_lat cpu_top mem_top mutex_top]
  obtain signals where
    d: "detect_signals thresholds c g hp avg_lat cpu_top mem_top mutex_top = Inr signals"
    and o: "subseq (kinds signals) signal_order"
    and io: "(''io-bound'' \<in> set (kinds signals)) =
        (avg_lat > t_lat \<and> \<not> c \<ge> t_cpu \<and> \<not> g \<ge> t_gc \<and> \<not> hp \<ge> t_heap
         \<and> \<not> lock_contended mutex_top)"
    and alone: "''io-bound'' \<in> set (kinds signals) \<longrightarrow> signals = [(''io-bound'', avg_lat, [])]"
    and others: "(''cpu-bound'' \<in> set (kinds signals)) = (c \<ge> t_cpu)"
      "(''gc-bound'' \<in> set (kinds signals)) = (g \<ge> t_gc)"
      "(''memory-pressure'' \<in> set (kinds signals)) = (hp \<ge> t_heap)"
      "(''lock-bound'' \<in> set (kinds signals)) = lock_contended mutex_top"
    by blast
  from classify_eq[OF d, of pyro_name] obtain pfn act where
    cl: "classify thresholds pyro_name c g hp avg_lat cpu_top mem_top mutex_top =
     Inr (case signals of [] \<Rightarrow> ''healthy'' | s # _ \<Rightarrow> fst s,
          if signals = [] then ''ok''
          else if c \<ge> 0.8 \<or> hp \<ge> 0.85 \<or> g \<ge> 0.1 then ''critical'' else ''warning'',
          pfn, act)" by blast
  have v: "((case signals of [] \<Rightarrow> ''healthy'' | s # _ \<Rightarrow> fst s) = ''io-bound'')
            = (''io-bound'' \<in> set (kinds signals))"
  proof (cases "''io-bound'' \<in> set (kinds signals)")
    case True
    with alone show ?thesis by simp
  next
    case False
    then show ?thesis by (cases signals) (auto simp: kinds_def)
  qed
  show ?thesis
    using d cl io alone v by auto
qed

text \<open>
  The statement at work, with the default thresholds and a latency of 900 ms: alone it
  gives \<^verbatim>\<open>io-bound\<close>; with a GC rate of 0.05 it does not.
\<close>

theorem io_bound_only_alone_witness:
  "(\<exists>sev pfn act. classify DEFAULT_THRESHOLDS ''svc'' 0.1 0.0 0.1 900 [] [] []
                       = Inr (''io-bound'', sev, pfn, act))
   \<and> (\<exists>v sev pfn act. classify DEFAULT_THRESHOLDS ''svc'' 0.1 0.05 0.1 900 [] [] []
                       = Inr (v, sev, pfn, act) \<and> v \<noteq> ''io-bound'')"
proof -
  have k: "DEFAULT_THRESHOLDS ''cpu'' = Some 0.3" "DEFAULT_THRESHOLDS ''gc'' = Some 0.03"
    "DEFAULT_THRESHOLDS ''heap_pct'' = Some 0.75" "DEFAULT_THRESHOLDS ''latency_ms'' = Some 500"
    by (simp_all add: DEFAULT_THRESHOLDS_def)
  have l: "\<not> lock_contended []" by (simp add: lock_contended_def)
  have a: "\<exists>sev pfn act. classify DEFAULT_THRESHOLDS ''svc'' 0.1 0.0 0.1 900 [] [] []
                       = Inr (''io-bound'', sev, pfn, act)"
    using io_bound_only_alone[OF k, where c="0.1" and g="0.0" and hp="0.1" and avg_lat="900" and cpu_top="[]" and mem_top="[]" and mutex_top="[]" and pyro_name="''svc''"] l by auto
  have b: "\<exists>v sev pfn act. classify DEFAULT_THRESHOLDS ''svc'' 0.1 0.05 0.1 900 [] [] []
                       = Inr (v, sev, pfn, act) \<and> v \<noteq> ''io-bound''"
    using io_bound_only_alone[OF k, where c="0.1" and g="0.05" and hp="0.1" and avg_lat="900" and cpu_top="[]" and mem_top="[]" and mutex_top="[]" and pyro_name="''svc''"] l by auto
  from a b show ?thesis by blast
qed

text \<open>
  Claim C3.  When at least one signal fired, the severity is \<^verbatim>\<open>critical\<close> exactly when
  the CPU rate is at least 0.8 or the heap percentage at least 0.85 or the GC rate at
  least 0.1, and \<^verbatim>\<open>warning\<close> exactly when none of the three holds; the verdict and
  the configurable cutoffs play no part.
\<close>

theorem severity_independent_of_verdict:
  assumes "thresholds ''cpu'' = Some t_cpu" "thresholds ''gc'' = Some t_gc"
    "thresholds ''heap_pct'' = Some t_heap" "thresholds ''latency_ms'' = Some t_lat"
  shows "\<exists>signals v sev pfn act.
      detect_signals thresholds c g hp avg_lat cpu_top mem_top mutex_top = Inr signals
    \<and> classify thresholds pyro_name c g hp avg_lat cpu_top mem_top mutex_top
        = Inr (v, sev, pfn, act)
    \<and> (signals \<noteq> [] \<longrightarrow>
          (sev = ''critical'') = (c \<ge> 0.8 \<or> hp \<ge> 0.85 \<or> g \<ge> 0.1)
        \<and> (sev = ''warning'') = (\<not> (c \<ge> 0.8 \<or> hp \<ge> 0.85 \<or> g \<ge> 0.1)))
    \<and> (signals \<noteq> [] \<and> c \<ge> 0.8 \<longrightarrow> sev = ''critical'')"
proof -
  from detect_signals_props[OF assms, of c g hp avg_lat cpu_top mem_top mutex_top]
  obtain signals where
    d: "detect_signals thresholds c g hp avg_lat cpu_top mem_top mutex_top = Inr signals"
    by blast
  from classify_eq[OF d, of pyro_name] obtain pfn act where
    cl: "classify thresholds pyro_name c g hp avg_lat cpu_top mem_top mutex_top =
     Inr (case signals of [] \<Rightarrow> ''healthy'' | s # _ \<Rightarrow> fst s,
          if signals = [] then ''ok''
          else if c \<ge> 0.8 \<or> hp \<ge> 0.85 \<or> g \<ge> 0.1 then ''critical'' else ''warning'',
          pfn, act)" by blast
  show ?thesis
    using d cl by auto
qed

text \<open>
  The statement at work: with the CPU cutoff raised to 0.95, a CPU rate of 0.9 records
  no CPU signal, the latency of 900 ms makes the verdict \<^verbatim>\<open>io-bound\<close>, and the severity
  is \<^verbatim>\<open>critical\<close>.
\<close>

theorem severity_independent_of_verdict_witness:
  "(DEFAULT_THRESHOLDS(''cpu'' \<mapsto> 0.95)) ''cpu'' = Some 0.95 \<and> (0.9::real) \<ge> 0.8
   \<and> (0.9::real) < 0.95 \<and> (900::real) > 500
   \<and> (\<exists>pfn act. classify (DEFAULT_THRESHOLDS(''cpu'' \<mapsto> 0.95)) ''svc'' 0.9 0 0.1 900 [] [] []
                       = Inr (''io-bound'', ''critical'', pfn, act))"
proof -
  define th where "th = DEFAULT_THRESHOLDS(''cpu'' \<mapsto> 0.95)"
  have k: "th ''cpu'' = Some 0.95" "th ''gc'' = Some 0.03"
    "th ''heap_pct'' = Some 0.75" "th ''latency_ms'' = Some 500"
    by (simp_all add: th_def DEFAULT_THRESHOLDS_def)
  have l: "\<not> lock_contended []" by (simp add: lock_contended_def)
  from severity_independent_of_verdict[OF k, where c="0.9" and g="0" and hp="0.1"
      and avg_lat="900" and cpu_top="[]" and mem_top="[]" and mutex_top="[]"
      and pyro_name="''svc''"]
  obtain signals v sev pfn act where
    d: "detect_signals th 0.9 0 0.1 900 [] [] [] = Inr signals"
    and cl: "classify th ''svc'' 0.9 0 0.1 900 [] [] [] = Inr (v, sev, pfn, act)"
    and sv: "signals \<noteq> [] \<and> (0.9::real) \<ge> 0.8 \<longrightarrow> sev = ''critical''"
    by blast
  have ds: "detect_signals th 0.9 0 0.1 900 [] [] [] = Inr [(''io-bound'', 900, [])]"
    by (simp add: detect_signals_eq[OF k] l)
  from d ds have sg: "signals = [(''io-bound'', 900, [])]" by simp
  with sv have c: "sev = ''critical''" by simp
  from classify_eq[OF ds, of "''svc''"] cl have "v = ''io-bound''" by auto
  with cl c have "\<exists>pfn act. classify th ''svc'' 0.9 0 0.1 900 [] [] []
                       = Inr (''io-bound'', ''critical'', pfn, act)" by blast
  moreover have "th ''cpu'' = Some 0.95" by (rule k)
  ultimately show ?thesis unfolding th_def by simp
qed


text \<open>
  Three scenarios with the default thresholds: a CPU rate of 0.85 with a mutex hotspot
  of 2% is \<^verbatim>\<open>cpu-bound\<close> and \<^verbatim>\<open>critical\<close>, its primary function the top CPU hotspot;
  a latency of 900 ms with everything else low is \<^verbatim>\<open>io-bound\<close> with a \<^verbatim>\<open>warning\<close>;
  everything below its cutoff is \<^verbatim>\<open>healthy\<close> and \<^verbatim>\<open>ok\<close> without a primary function.
\<close>

lemma resolver_scenarios:
  "classify DEFAULT_THRESHOLDS ''svc'' 0.85 0.01 0.4 0
      [\<lparr>function_name = ''Hot.spot'', self_pct = 30\<rparr>] []
      [\<lparr>function_name = ''Foo.bar'', self_pct = 2\<rparr>]
     = Inr (''cpu-bound'', ''critical'', Some ''Hot.spot'', OptimizeFunction ''Hot.spot'')"
  "classify DEFAULT_THRESHOLDS ''svc'' 0.1 0.0 0.1 900 [] [] []
     = Inr (''io-bound'', ''warning'', None, AvgLatency 900)"
  "classify DEFAULT_THRESHOLDS ''svc'' 0.1 0.0 0.1 100 [] [] []
     = Inr (''healthy'', ''ok'', None, NoActionNeeded)"
  by code_simp+

section \<open>The resolver: derived ratios and the summary\<close>

lemma heap_ratio_eq: "heap_ratio hu hm = Inr (if hm > 0 then hu / hm else 0)"
  by (simp add: heap_ratio_def py_div_def)

lemma avg_latency_eq: "avg_latency ls lc = Inr (if lc > 0 then ls / lc * 1000 else 0)"
  by (simp add: avg_latency_def py_div_def and_then_def)

lemma error_percent_eq: "error_percent er rr = Inr (if rr > 0 then er / rr * 100 else 0)"
  by (simp add: error_percent_def py_div_def and_then_def)

lemma py_round_0: "py_round 0 n = 0"
  by (simp add: py_round_def)

lemma zero_or_absent_get: "zero_or_absent d k \<Longrightarrow> dict_get d k 0 = 0"
  by (simp add: zero_or_absent_def dict_get_def split: option.splits)

lemma inst_zero_or_absent_get: "inst_zero_or_absent d svc \<Longrightarrow> get_inst d svc = 0"
  by (auto simp: inst_zero_or_absent_def get_inst_def dict_get_def zero_or_absent_def
      split: option.splits)

lemma detect_signals_kinds:
  assumes "thresholds ''cpu'' = Some t_cpu" "thresholds ''gc'' = Some t_gc"
    "thresholds ''heap_pct'' = Some t_heap" "thresholds ''latency_ms'' = Some t_lat"
  shows "\<exists>signals.
      detect_signals thresholds c g hp avg_lat cpu_top mem_top mutex_top = Inr signals
    \<and> (case signals of [] \<Rightarrow> ''healthy'' | s # _ \<Rightarrow> fst s)
         \<in> (if signals = [] then {''healthy''} else set signal_order)"
  unfolding detect_signals_eq[OF assms]
  by (auto simp: signal_order_def)

text \<open>
  With the four cutoffs present the loop body returns a result: it is healthy exactly
  when its severity is \<^verbatim>\<open>ok\<close>, and its ratios are the guarded quotients.
\<close>

lemma analyze_service_eq:
  assumes "thresholds ''cpu'' = Some t_cpu" "thresholds ''gc'' = Some t_gc"
    "thresholds ''heap_pct'' = Some t_heap" "thresholds ''latency_ms'' = Some t_lat"
  shows "\<exists>r.
      analyze_service a pyroscope pyro_ok thresholds sn svc = Inr r
    \<and> service r = svc
    \<and> (verdict r = ''healthy'') = (severity r = ''ok'')
    \<and> severity r \<in> {''critical'', ''warning'', ''ok''}
    \<and> heap_pct (metrics r) =
        py_round (if dict_get (s_heap_max sn) svc 0 > 0
                  then dict_get (s_heap_used sn) svc 0 / dict_get (s_heap_max sn) svc 0
                  else 0) 3
    \<and> err_pct (metrics r) =
        py_round (if get_inst (s_req_rate sn) svc > 0
                  then get_inst (s_err_rate sn) svc / get_inst (s_req_rate sn) svc * 100
                  else 0) 1
    \<and> avg_latency_ms (metrics r) =
        py_round (if get_inst (s_lat_count sn) svc > 0
                  then get_inst (s_lat_sum sn) svc / get_inst (s_lat_count sn) svc * 1000
                  else 0) 1"
proof -
  define pyro_name where "pyro_name = (case SVC_MAP a svc of None \<Rightarrow> svc | Some n \<Rightarrow> n)"
  define c where "c = dict_get (s_cpu sn) svc 0"
  define hp where "hp = (if dict_get (s_heap_max sn) svc 0 > 0
                  then dict_get (s_heap_used sn) svc 0 / dict_get (s_heap_max sn) svc 0
                  else 0)"
  define g where "g = dict_get (s_gc sn) svc 0"
  define avg_lat where "avg_lat = (if get_inst (s_lat_count sn) svc > 0
                  then get_inst (s_lat_sum sn) svc / get_inst (s_lat_count sn) svc * 1000
                  else 0)"
  define cpu_top where "cpu_top = pyro_top a pyroscope pyro_ok pyro_name CPU_PROFILE"
  define mem_top where "mem_top = pyro_top a pyroscope pyro_ok pyro_name MEM_PROFILE"
  define mutex_top where "mutex_top = pyro_top a pyroscope pyro_ok pyro_name MUTEX_PROFILE"
  from detect_signals_kinds[OF assms, of c g hp avg_lat cpu_top mem_top mutex_top]
  obtain signals where
    d: "detect_signals thresholds c g hp avg_lat cpu_top mem_top mutex_top = Inr signals"
    and kd: "(case signals of [] \<Rightarrow> ''healthy'' | s # _ \<Rightarrow> fst s)
         \<in> (if signals = [] then {''healthy''} else set signal_order)"
    by blast
  from classify_eq[OF d, of pyro_name] obtain pfn act where
    cl: "classify thresholds pyro_name c g hp avg_lat cpu_top mem_top mutex_top =
     Inr (case signals of [] \<Rightarrow> ''healthy'' | s # _ \<Rightarrow> fst s,
          if signals = [] then ''ok''
          else if c \<ge> 0.8 \<or> hp \<ge> 0.85 \<or> g \<ge> 0.1 then ''critical'' else ''warning'',
          pfn, act)" by blast
  have hv: "((case signals of [] \<Rightarrow> ''healthy'' | s # _ \<Rightarrow> fst s) = ''healthy'') = (signals = [])"
    using kd by (cases signals) (auto simp: signal_order_def)
  show ?thesis
    unfolding analyze_service_def heap_ratio_eq avg_latency_eq error_percent_eq
    apply (simp only: Let_def and_then_Inr)
    apply (fold pyro_name_def)
    apply (fold c_def hp_def g_def avg_lat_def)
    apply (fold cpu_top_def mem_top_def mutex_top_def)
    apply (simp only: cl and_then_Inr prod.case)
    apply (simp add: hv)
    done
qed

lemma apply_tokens_dom: "apply_tokens pf toks th = Inr th' \<Longrightarrow> dom th' = dom th"
proof (induction toks arbitrary: th)
  case Nil
  then show ?case by simp
next
  case (Cons tok toks)
  show ?case
  proof (cases "CHR ''='' \<in> set tok \<and> tok_key tok \<in> dom th")
    case False
    with Cons show ?thesis
      by (simp add: apply_tokens_step_skip[OF False] del: apply_tokens.simps)
  next
    case True
    show ?thesis
    proof (cases "pf (tok_val tok)")
      case None
      with True Cons.prems show ?thesis
        by (simp add: apply_tokens_step_bad del: apply_tokens.simps)
    next
      case (Some x)
      have d: "dom (th(tok_key tok \<mapsto> x)) = dom th" using True by auto
      have "apply_tokens pf toks (th(tok_key tok \<mapsto> x)) = Inr th'"
        using Cons.prems True Some by (simp add: apply_tokens_step_hit del: apply_tokens.simps)
      from Cons.IH[OF this] show ?thesis unfolding d .
    qed
  qed
qed

lemma parse_thresholds_keys:
  assumes "parse_thresholds pf s = Inr th"
  shows "\<exists>t_cpu t_gc t_heap t_lat. th ''cpu'' = Some t_cpu \<and> th ''gc'' = Some t_gc
     \<and> th ''heap_pct'' = Some t_heap \<and> th ''latency_ms'' = Some t_lat"
proof -
  have "dom th = known_keys"
    using apply_tokens_dom[OF assms[unfolded parse_thresholds_def]]
    by (simp add: dom_DEFAULT_THRESHOLDS)
  then have "''cpu'' \<in> dom th" "''gc'' \<in> dom th" "''heap_pct'' \<in> dom th" "''latency_ms'' \<in> dom th"
    by (simp_all add: known_keys_def)
  then show ?thesis by (simp only: domIff not_None_eq) blast
qed

lemma for_each_all:
  assumes "\<forall>x\<in>set xs. \<exists>y. body x = Inr y \<and> P y"
  shows "\<exists>ys. for_each body xs = Inr ys \<and> (\<forall>y\<in>set ys. P y) \<and> length ys = length xs"
  using assms
proof (induction xs)
  case Nil
  show ?case by simp
next
  case (Cons x xs)
  then obtain y where y: "body x = Inr y" "P y" by auto
  from Cons obtain ys where ys: "for_each body xs = Inr ys" "\<forall>y\<in>set ys. P y" "length ys = length xs"
    by auto
  show ?case using y ys by (simp add: and_then_Inr)
qed

lemma three_way_count:
  assumes "\<forall>r\<in>set rs. (verdict r = ''healthy'') = (severity r = ''ok'')
                     \<and> severity r \<in> {''critical'', ''warning'', ''ok''}"
  shows "length (filter (\<lambda>r. severity r = ''critical'') rs)
       + length (filter (\<lambda>r. severity r = ''warning'') rs)
       + length (filter (\<lambda>r. verdict r = ''healthy'') rs) = length rs"
  using assms by (induction rs) auto

lemma map_of_dict_set: "map_of (dict_set k v d) = (map_of d)(k \<mapsto> v)"
  by (induction d) (auto simp: fun_eq_iff)

lemma dict_item_key: "k \<in> fst ` set d \<Longrightarrow> \<exists>v. dict_item d k = Inr v"
  by (cases "map_of d k") (auto simp: dict_item_def map_of_eq_None_iff)

lemma heap_pct_loop_ok:
  assumes "set svcs \<subseteq> fst ` set heap_used"
  shows "\<exists>p'. heap_pct_loop heap_used heap_max svcs pcts = Inr p'
     \<and> (\<forall>k. zero_or_absent heap_max k \<longrightarrow> map_of p' k = map_of pcts k)"
  using assms
proof (induction svcs arbitrary: pcts)
  case Nil
  show ?case by simp
next
  case (Cons svc svcs)
  then have sub: "set svcs \<subseteq> fst ` set heap_used" and key: "svc \<in> fst ` set heap_used"
    by auto
  show ?case
  proof (cases "\<exists>hm. map_of heap_max svc = Some hm \<and> hm > 0")
    case False
    then have step: "heap_pct_loop heap_used heap_max (svc # svcs) pcts
                 = heap_pct_loop heap_used heap_max svcs pcts"
      by (auto split: option.splits)
    show ?thesis unfolding step by (rule Cons.IH[OF sub])
  next
    case True
    then obtain hm where hm: "map_of heap_max svc = Some hm" "hm > 0" by blast
    from dict_item_key[OF key] obtain hu where hu: "dict_item heap_used svc = Inr hu" by blast
    have step: "heap_pct_loop heap_used heap_max (svc # svcs) pcts
                 = heap_pct_loop heap_used heap_max svcs (dict_set svc (hu / hm) pcts)"
      using hm hu by (simp add: and_then_Inr py_div_def)
    from Cons.IH[OF sub, of "dict_set svc (hu / hm) pcts"] obtain p' where
      p': "heap_pct_loop heap_used heap_max svcs (dict_set svc (hu / hm) pcts) = Inr p'"
      "\<forall>k. zero_or_absent heap_max k \<longrightarrow> map_of p' k = map_of (dict_set svc (hu / hm) pcts) k"
      by blast
    have "\<forall>k. zero_or_absent heap_max k \<longrightarrow> map_of p' k = map_of pcts k"
      using p'(2) hm by (auto simp: map_of_dict_set zero_or_absent_def)
    with p'(1) show ?thesis unfolding step by blast
  qed
qed

lemma heap_pct_table_ok:
  "\<exists>pcts. heap_pct_table heap_used heap_max = Inr pcts
     \<and> (\<forall>k. zero_or_absent heap_max k \<longrightarrow> map_of pcts k = None)"
proof -
  have "set (remdups (map fst heap_used)) \<subseteq> fst ` set heap_used" by simp
  from heap_pct_loop_ok[OF this, of heap_max "[]"] show ?thesis
    unfolding heap_pct_table_def by simp
qed

lemma evaluate_service_heap_pct:
  "map_of pcts svc = None \<Longrightarrow>
   heap_pct (h_metrics (evaluate_service a cpu_d pcts heap_used heap_max gc_d th_d svc)) = 0"
  by (simp add: evaluate_service_def Let_def dict_get_def py_round_0)

text \<open>
  Claim C4.  With the four cutoffs in the thresholds, the loop body of \<^verbatim>\<open>analyze\<close>
  returns a result for every service and every snapshot: no division by zero and no
  other exception.  In that result \<^verbatim>\<open>heap_pct\<close> is 0 when the heap maximum of the
  service is zero or absent, \<^verbatim>\<open>err_pct\<close> is 0 when its request rate is zero or absent,
  and \<^verbatim>\<open>avg_latency_ms\<close> is 0 when its latency count is zero or absent.  The three
  guarded quotients return a value for all arguments, 0 on a zero divisor.  In
  \<^verbatim>\<open>jvm_health.py\<close> the table \<^verbatim>\<open>heap_pct\<close> is built without exception, has no entry
  for a service whose heap maximum is zero or absent, and the evaluation then reports
  a heap percentage of 0.
\<close>

theorem ratios_default_to_zero:
  assumes "thresholds ''cpu'' = Some t_cpu" "thresholds ''gc'' = Some t_gc"
    "thresholds ''heap_pct'' = Some t_heap" "thresholds ''latency_ms'' = Some t_lat"
  shows "(\<exists>r. analyze_service a pyroscope pyro_ok thresholds sn svc = Inr r
       \<and> (zero_or_absent (s_heap_max sn) svc \<longrightarrow> heap_pct (metrics r) = 0)
       \<and> (inst_zero_or_absent (s_req_rate sn) svc \<longrightarrow> err_pct (metrics r) = 0)
       \<and> (inst_zero_or_absent (s_lat_count sn) svc \<longrightarrow> avg_latency_ms (metrics r) = 0))
    \<and> (\<exists>q. heap_ratio hu hm = Inr q \<and> (hm = 0 \<longrightarrow> q = 0))
    \<and> (\<exists>q. error_percent er rr = Inr q \<and> (rr = 0 \<longrightarrow> q = 0))
    \<and> (\<exists>q. avg_latency ls lc = Inr q \<and> (lc = 0 \<longrightarrow> q = 0))
    \<and> (\<exists>pcts. heap_pct_table heap_used heap_max = Inr pcts
         \<and> (zero_or_absent heap_max svc \<longrightarrow>
              map_of pcts svc = None
            \<and> heap_pct (h_metrics (evaluate_service a cpu_d pcts heap_used heap_max
                                      gc_d th_d svc)) = 0))"
proof -
  from analyze_service_eq[OF assms, of a pyroscope pyro_ok sn svc] obtain r where
    r: "analyze_service a pyroscope pyro_ok thresholds sn svc = Inr r"
    and m: "heap_pct (metrics r) =
        py_round (if dict_get (s_heap_max sn) svc 0 > 0
                  then dict_get (s_heap_used sn) svc 0 / dict_get (s_heap_max sn) svc 0
                  else 0) 3"
      "err_pct (metrics r) =
        py_round (if get_inst (s_req_rate sn) svc > 0
                  then get_inst (s_err_rate sn) svc / get_inst (s_req_rate sn) svc * 100
                  else 0) 1"
      "avg_latency_ms (metrics r) =
        py_round (if get_inst (s_lat_count sn) svc > 0
                  then get_inst (s_lat_sum sn) svc / get_inst (s_lat_count sn) svc * 1000
                  else 0) 1"
    by blast
  have 1: "zero_or_absent (s_heap_max sn) svc \<longrightarrow> heap_pct (metrics r) = 0"
    unfolding m by (auto dest: zero_or_absent_get simp: py_round_0)
  have 2: "inst_zero_or_absent (s_req_rate sn) svc \<longrightarrow> err_pct (metrics r) = 0"
    unfolding m by (auto dest: inst_zero_or_absent_get simp: py_round_0)
  have 3: "inst_zero_or_absent (s_lat_count sn) svc \<longrightarrow> avg_latency_ms (metrics r) = 0"
    unfolding m by (auto dest: inst_zero_or_absent_get simp: py_round_0)
  have 4: "\<exists>q. heap_ratio hu hm = Inr q \<and> (hm = 0 \<longrightarrow> q = 0)"
    "\<exists>q. error_percent er rr = Inr q \<and> (rr = 0 \<longrightarrow> q = 0)"
    "\<exists>q. avg_latency ls lc = Inr q \<and> (lc = 0 \<longrightarrow> q = 0)"
    by (simp_all add: heap_ratio_eq error_percent_eq avg_latency_eq)
  from heap_pct_table_ok[of heap_used heap_max] obtain pcts where
    p: "heap_pct_table heap_used heap_max = Inr pcts"
      "\<forall>k. zero_or_absent heap_max k \<longrightarrow> map_of pcts k = None"
    by blast
  have 5: "\<exists>pcts. heap_pct_table heap_used heap_max = Inr pcts
         \<and> (zero_or_absent heap_max svc \<longrightarrow>
              map_of pcts svc = None
            \<and> heap_pct (h_metrics (evaluate_service a cpu_d pcts heap_used heap_max
                                      gc_d th_d svc)) = 0)"
    using p by (auto simp: evaluate_service_heap_pct)
  from r 1 2 3 4 5 show ?thesis by blast
qed

lemma default_keys:
  "DEFAULT_THRESHOLDS ''cpu'' = Some 0.3" "DEFAULT_THRESHOLDS ''gc'' = Some 0.03"
  "DEFAULT_THRESHOLDS ''heap_pct'' = Some 0.75" "DEFAULT_THRESHOLDS ''latency_ms'' = Some 500"
  by (simp_all add: DEFAULT_THRESHOLDS_def)

text \<open>
  The statement at work on the example fleet: \<^verbatim>\<open>bank-api\<close> reports a heap maximum of
  zero and has no HTTP metrics, and all three ratios are 0.
\<close>

theorem ratios_default_to_zero_witness:
  "zero_or_absent [(''bank-api'', 0), (''ledger'', 104857600)] ''bank-api''
   \<and> zero_or_absent [(''bank-api'', 0), (''ledger'', 104857600)] ''payments''
   \<and> inst_zero_or_absent [] ''bank-api''
   \<and> (\<exists>r. analyze_service example_api ''http://pyro'' True DEFAULT_THRESHOLDS
              (query_snapshots example_api ''http://prom'' True) ''bank-api'' = Inr r
          \<and> heap_pct (metrics r) = 0 \<and> err_pct (metrics r) = 0
          \<and> avg_latency_ms (metrics r) = 0)
   \<and> heap_ratio 52428800 0 = Inr 0
   \<and> heap_pct_table [(''bank-api'', 52428800), (''ledger'', 10485760)]
                     [(''bank-api'', 0), (''ledger'', 104857600)]
        = Inr [(''ledger'', 1 / 10)]"
proof -
  define sn where "sn = query_snapshots example_api ''http://prom'' True"
  have hm: "s_heap_max sn = [(''bank-api'', 0), (''ledger'', 104857600)]"
    and rr: "s_req_rate sn = []" and lc: "s_lat_count sn = [(''payments:8080'', 10)]"
    unfolding sn_def by code_simp+
  have z1: "zero_or_absent [(''bank-api'', 0), (''ledger'', 104857600)] ''bank-api''"
    and z1': "zero_or_absent [(''bank-api'', 0), (''ledger'', 104857600)] ''payments''"
    and z2: "inst_zero_or_absent [] ''bank-api''"
    and z3: "inst_zero_or_absent [(''payments:8080'', 10)] ''bank-api''"
    by (simp_all add: zero_or_absent_def inst_zero_or_absent_def)
  note t = ratios_default_to_zero[OF default_keys, where a=example_api and pyroscope="''http://pyro''"
      and pyro_ok=True and sn=sn and svc="''bank-api''" and hu=52428800 and hm=0
      and heap_used="[(''bank-api'', 52428800), (''ledger'', 10485760)]"
      and heap_max="[(''bank-api'', 0), (''ledger'', 104857600)]"]
  from t obtain r where
    r: "analyze_service example_api ''http://pyro'' True DEFAULT_THRESHOLDS sn ''bank-api'' = Inr r"
      "zero_or_absent (s_heap_max sn) ''bank-api'' \<longrightarrow> heap_pct (metrics r) = 0"
      "inst_zero_or_absent (s_req_rate sn) ''bank-api'' \<longrightarrow> err_pct (metrics r) = 0"
      "inst_zero_or_absent (s_lat_count sn) ''bank-api'' \<longrightarrow> avg_latency_ms (metrics r) = 0"
    by blast
  have a: "\<exists>r. analyze_service example_api ''http://pyro'' True DEFAULT_THRESHOLDS sn ''bank-api'' = Inr r
          \<and> heap_pct (metrics r) = 0 \<and> err_pct (metrics r) = 0
          \<and> avg_latency_ms (metrics r) = 0"
    using r z1 z2 z3 unfolding hm rr lc by blast
  from t have b: "heap_ratio 52428800 0 = Inr 0" by auto
  have c: "heap_pct_table [(''bank-api'', 52428800), (''ledger'', 10485760)]
                     [(''bank-api'', 0), (''ledger'', 104857600)]
        = Inr [(''ledger'', 1 / 10)]"
    by code_simp
  from a b c z1 z1' z2 show ?thesis unfolding sn_def by blast
qed

text \<open>
  Claim C10.  Whenever the override string parses, \<^verbatim>\<open>main\<close> produces a report.  In
  every result of the report the verdict is \<^verbatim>\<open>healthy\<close> exactly when the severity is
  \<^verbatim>\<open>ok\<close>, and the severity is one of \<^verbatim>\<open>critical\<close>, \<^verbatim>\<open>warning\<close>, \<^verbatim>\<open>ok\<close>; so the
  critical, warning and healthy counts of the summary add up to its total, which is the
  number of results.
\<close>

theorem healthy_iff_ok:
  assumes "parse_thresholds pf threshold_str = Inr thresholds"
  shows "\<exists>rep. bottleneck_main pf a prometheus_url pyroscope_url prom_ok pyro_ok
                  service_filter threshold_str = Inr rep
    \<and> (\<forall>r\<in>set (services rep).
          (verdict r = ''healthy'') = (severity r = ''ok'')
        \<and> severity r \<in> {''critical'', ''warning'', ''ok''})
    \<and> total (report_summary rep) = length (services rep)
    \<and> critical (report_summary rep) + warning (report_summary rep)
        + healthy (report_summary rep) = total (report_summary rep)"
proof -
  from parse_thresholds_keys[OF assms] obtain t_cpu t_gc t_heap t_lat where
    k: "thresholds ''cpu'' = Some t_cpu" "thresholds ''gc'' = Some t_gc"
       "thresholds ''heap_pct'' = Some t_heap" "thresholds ''latency_ms'' = Some t_lat"
    by blast
  define P where "P = (\<lambda>r :: verdict_result. (verdict r = ''healthy'') = (severity r = ''ok'')
        \<and> severity r \<in> {''critical'', ''warning'', ''ok''})"
  define sn where "sn = query_snapshots a prometheus_url prom_ok"
  have body: "\<exists>y. analyze_service a pyroscope_url pyro_ok thresholds sn svc = Inr y \<and> P y" for svc
    using analyze_service_eq[OF k, of a pyroscope_url pyro_ok sn svc] unfolding P_def by blast
  have loop: "\<exists>ys. for_each (analyze_service a pyroscope_url pyro_ok thresholds sn) svcs = Inr ys
       \<and> (\<forall>y\<in>set ys. P y) \<and> length ys = length svcs" for svcs
    by (rule for_each_all) (use body in blast)
  have an: "\<exists>results. analyze a prometheus_url pyroscope_url prom_ok pyro_ok service_filter thresholds
               = Inr results \<and> (\<forall>r\<in>set results. P r)"
  proof -
    define svcs where "svcs = (let services = sort (remdups (map fst (s_cpu sn)))
       in if service_filter \<noteq> [] then
               (let container = (case REVERSE_MAP a service_filter of
                                   None \<Rightarrow> service_filter | Some n \<Rightarrow> n)
                in filter (\<lambda>s. s = container) services)
             else services)"
    from loop[of svcs] obtain ys where
      ys: "for_each (analyze_service a pyroscope_url pyro_ok thresholds sn) svcs = Inr ys"
        "\<forall>y\<in>set ys. P y" by blast
    have "analyze a prometheus_url pyroscope_url prom_ok pyro_ok service_filter thresholds
            = Inr (sort_results order_rank ys)"
      unfolding analyze_def sn_def[symmetric] Let_def
      using ys(1) unfolding svcs_def Let_def by (simp add: and_then_Inr)
    moreover have "\<forall>r\<in>set (sort_results order_rank ys). P r"
      using ys(2) by (simp add: sort_results_def)
    ultimately show ?thesis by blast
  qed
  then obtain results where
    res: "analyze a prometheus_url pyroscope_url prom_ok pyro_ok service_filter thresholds
               = Inr results" "\<forall>r\<in>set results. P r" by blast
  have main: "bottleneck_main pf a prometheus_url pyroscope_url prom_ok pyro_ok
                  service_filter threshold_str
      = Inr \<lparr>report_thresholds = thresholds, services = results,
              report_summary = summarize results\<rparr>"
    unfolding bottleneck_main_def assms and_then_Inr res(1) ..
  have cnt: "critical (summarize results) + warning (summarize results)
        + healthy (summarize results) = total (summarize results)"
    using three_way_count[of results] res(2) unfolding P_def summarize_def by simp
  show ?thesis
    unfolding main using res(2) cnt unfolding P_def by (simp add: summarize_def)
qed

text \<open>
  The statement at work on the example fleet, with no overrides: one critical, one
  warning and one healthy service, three in all.
\<close>

theorem healthy_iff_ok_witness:
  "parse_thresholds float_plain '''' = Inr DEFAULT_THRESHOLDS
   \<and> (\<exists>rep. bottleneck_main float_plain example_api ''http://prom'' ''http://pyro'' True True
               '''' '''' = Inr rep
         \<and> map (\<lambda>r. (service r, verdict r, severity r)) (services rep)
             = [(''bank-api'', ''cpu-bound'', ''critical''),
                (''payments'', ''io-bound'', ''warning''),
                (''ledger'', ''healthy'', ''ok'')]
         \<and> report_summary rep = \<lparr>total = 3, critical = 1, warning = 1, healthy = 1\<rparr>
         \<and> critical (report_summary rep) + warning (report_summary rep)
             + healthy (report_summary rep) = total (report_summary rep))"
proof -
  have p: "parse_thresholds float_plain '''' = Inr DEFAULT_THRESHOLDS"
    by (simp add: parse_thresholds_def py_split_def py_strip_def)
  from healthy_iff_ok[OF p, of example_api "''http://prom''" "''http://pyro''" True True "''''"]
  obtain rep where
    rep: "bottleneck_main float_plain example_api ''http://prom'' ''http://pyro'' True True
               '''' '''' = Inr rep"
     and cnt: "critical (report_summary rep) + warning (report_summary rep)
             + healthy (report_summary rep) = total (report_summary rep)"
    by blast
  have ev: "map_sum id (\<lambda>rep. (map (\<lambda>r. (service r, verdict r, severity r)) (services rep),
                               report_summary rep))
     (bottleneck_main float_plain example_api ''http://prom'' ''http://pyro'' True True '''' '''')
   = Inr ([(''bank-api'', ''cpu-bound'', ''critical''), (''payments'', ''io-bound'', ''warning''),
           (''ledger'', ''healthy'', ''ok'')], \<lparr>total = 3, critical = 1, warning = 1, healthy = 1\<rparr>)"
    by code_simp
  from ev have "map (\<lambda>r. (service r, verdict r, severity r)) (services rep)
             = [(''bank-api'', ''cpu-bound'', ''critical''),
                (''payments'', ''io-bound'', ''warning''),
                (''ledger'', ''healthy'', ''ok'')]
         \<and> report_summary rep = \<lparr>total = 3, critical = 1, warning = 1, healthy = 1\<rparr>"
    unfolding rep by simp
  then have "bottleneck_main float_plain example_api ''http://prom'' ''http://pyro'' True True
               [] [] = Inr rep
         \<and> map (\<lambda>r. (service r, verdict r, severity r)) (services rep)
             = [(''bank-api'', ''cpu-bound'', ''critical''),
                (''payments'', ''io-bound'', ''warning''),
                (''ledger'', ''healthy'', ''ok'')]
         \<and> report_summary rep = \<lparr>total = 3, critical = 1, warning = 1, healthy = 1\<rparr>
         \<and> critical (report_summary rep) + warning (report_summary rep)
             + healthy (report_summary rep) = total (report_summary rep)"
    using rep cnt by simp
  then show ?thesis using p by (intro conjI exI[of _ rep]) simp_all
qed

section \<open>Report ordering\<close>

lemma sort_results_sorted:
  "sorted (map (\<lambda>r. (order (severity r), service r)) (sort_results order rs))"
  unfolding sort_results_def by (rule sorted_sort_key)

lemma sort_results_mset: "mset (sort_results order rs) = mset rs"
  unfolding sort_results_def by simp

lemma sort_results_stable:
  "filter (\<lambda>r. (order (severity r), service r) = k) (sort_results order rs)
     = filter (\<lambda>r. (order (severity r), service r) = k) rs"
  unfolding sort_results_def by (rule sort_key_stable)

lemma analyze_sorted:
  assumes "analyze a prometheus pyroscope prom_ok pyro_ok service_filter thresholds = Inr results"
  shows "sorted (map (\<lambda>r. (order_rank (severity r), service r)) results)"
proof -
  from assms obtain ys where "results = sort_results order_rank ys"
    unfolding analyze_def Let_def and_then_def by (auto split: sum.splits)
  then show ?thesis by (simp add: sort_results_sorted)
qed

lemma health_main_sorted:
  assumes "health_main a prometheus = Inr results"
  shows "sorted (map (\<lambda>r. (health_order_rank (severity r), service r)) results)"
proof -
  from assms obtain ys where "results = sort_results health_order_rank ys"
    unfolding health_main_def Let_def and_then_def by (auto split: sum.splits if_splits)
  then show ?thesis by (simp add: sort_results_sorted)
qed

text \<open>
  Each rank table knows its own vocabulary only; any other severity, the other
  vocabulary included, gets the rank 9 of \<^verbatim>\<open>order.get(s, 9)\<close>.
\<close>

lemma rank_of_other_severities:
  "order_rank ''CRITICAL'' = 9 \<and> order_rank ''WARNING'' = 9 \<and> order_rank ''OK'' = 9
   \<and> health_order_rank ''critical'' = 9 \<and> health_order_rank ''warning'' = 9
   \<and> health_order_rank ''ok'' = 9"
  by (simp add: order_rank_def health_order_rank_def)

lemma sorted_pairs_nth:
  assumes "sorted (map (\<lambda>r. (f r :: nat, g r :: string)) xs)" "i < j" "j < length xs"
  shows "f (xs ! i) < f (xs ! j) \<or> (f (xs ! i) = f (xs ! j) \<and> g (xs ! i) \<le> g (xs ! j))"
proof -
  have "map (\<lambda>r. (f r, g r)) xs ! i \<le> map (\<lambda>r. (f r, g r)) xs ! j"
    using assms by (intro sorted_nth_mono) auto
  then have "(f (xs ! i), g (xs ! i)) \<le> (f (xs ! j), g (xs ! j))"
    using assms by simp
  then show ?thesis by (auto simp: less_eq_prod_def)
qed

text \<open>
  Claim C6.  The list \<^verbatim>\<open>analyze\<close> returns is sorted ascending by the pair of the rank
  of the severity and the service name, and so is the list of the health check, each
  with its own vocabulary: \<^verbatim>\<open>critical\<close>/\<^verbatim>\<open>CRITICAL\<close> has rank 0,
  \<^verbatim>\<open>warning\<close>/\<^verbatim>\<open>WARNING\<close> rank 1, \<^verbatim>\<open>ok\<close>/\<^verbatim>\<open>OK\<close> rank 2.  The sort both use orders
  any list by that pair (a smaller rank first, and within a rank the service names in
  lexical order), keeps every result, and keeps results with equal keys in their order.
  Three services \<^verbatim>\<open>a\<close> critical, \<^verbatim>\<open>b\<close> warning, \<^verbatim>\<open>c\<close> critical come out as
  \<^verbatim>\<open>a\<close>, \<^verbatim>\<open>c\<close>, \<^verbatim>\<open>b\<close>.
\<close>

theorem report_ordering:
  "(\<forall>results. analyze a prometheus pyroscope prom_ok pyro_ok service_filter thresholds
                 = Inr results \<longrightarrow>
       sorted (map (\<lambda>r. (order_rank (severity r), service r)) results))
   \<and> (\<forall>results. health_main a prometheus = Inr results \<longrightarrow>
       sorted (map (\<lambda>r. (health_order_rank (severity r), service r)) results))
   \<and> sorted (map (\<lambda>r. (order (severity r), service r)) (sort_results order rs))
   \<and> (\<forall>i j. i < j \<and> j < length rs \<longrightarrow>
         order (severity (sort_results order rs ! i)) < order (severity (sort_results order rs ! j))
       \<or> (order (severity (sort_results order rs ! i)) = order (severity (sort_results order rs ! j))
          \<and> service (sort_results order rs ! i) \<le> service (sort_results order rs ! j)))
   \<and> mset (sort_results order rs) = mset rs
   \<and> (\<forall>k. filter (\<lambda>r. (order (severity r), service r) = k) (sort_results order rs)
            = filter (\<lambda>r. (order (severity r), service r) = k) rs)
   \<and> order_rank ''critical'' = 0 \<and> order_rank ''warning'' = 1 \<and> order_rank ''ok'' = 2
   \<and> health_order_rank ''CRITICAL'' = 0 \<and> health_order_rank ''WARNING'' = 1
   \<and> health_order_rank ''OK'' = 2
   \<and> map service (sort_results order_rank
            [ra\<lparr>service := ''a'', severity := ''critical''\<rparr>,
             rb\<lparr>service := ''b'', severity := ''warning''\<rparr>,
             rc\<lparr>service := ''c'', severity := ''critical''\<rparr>]) = [''a'', ''c'', ''b'']
   \<and> map service (sort_results health_order_rank
            [ha\<lparr>service := ''a'', severity := ''CRITICAL''\<rparr>,
             hb\<lparr>service := ''b'', severity := ''WARNING''\<rparr>,
             hc\<lparr>service := ''c'', severity := ''CRITICAL''\<rparr>]) = [''a'', ''c'', ''b'']"
proof -
  have len: "length (sort_results order rs) = length rs"
    by (simp add: sort_results_def)
  have nth: "\<forall>i j. i < j \<and> j < length rs \<longrightarrow>
         order (severity (sort_results order rs ! i)) < order (severity (sort_results order rs ! j))
       \<or> (order (severity (sort_results order rs ! i)) = order (severity (sort_results order rs ! j))
          \<and> service (sort_results order rs ! i) \<le> service (sort_results order rs ! j))"
    using sorted_pairs_nth[OF sort_results_sorted[of order rs]] len by auto
  have ex1: "map service (sort_results order_rank
            [ra\<lparr>service := ''a'', severity := ''critical''\<rparr>,
             rb\<lparr>service := ''b'', severity := ''warning''\<rparr>,
             rc\<lparr>service := ''c'', severity := ''critical''\<rparr>]) = [''a'', ''c'', ''b'']"
    by (simp add: sort_results_def order_rank_def)
  have ex2: "map service (sort_results health_order_rank
            [ha\<lparr>service := ''a'', severity := ''CRITICAL''\<rparr>,
             hb\<lparr>service := ''b'', severity := ''WARNING''\<rparr>,
             hc\<lparr>service := ''c'', severity := ''CRITICAL''\<rparr>]) = [''a'', ''c'', ''b'']"
    by (simp add: sort_results_def health_order_rank_def)
  have ranks: "order_rank ''critical'' = 0 \<and> order_rank ''warning'' = 1 \<and> order_rank ''ok'' = 2
   \<and> health_order_rank ''CRITICAL'' = 0 \<and> health_order_rank ''WARNING'' = 1
   \<and> health_order_rank ''OK'' = 2"
    by (simp add: order_rank_def health_order_rank_def)
  show ?thesis
    apply (intro conjI allI impI)
    apply (erule analyze_sorted)
    apply (erule health_main_sorted)
    apply (rule sort_results_sorted)
    using nth apply blast
    apply (rule sort_results_mset)
    apply (rule sort_results_stable)
    using ranks apply simp_all[6]
    apply (rule ex1)
    apply (rule ex2)
    done
qed

text \<open>
  The statement at work on the example fleet: the resolver lists the critical service,
  then the one with a warning, then the healthy one; the health check lists the
  critical service and then the two that are fine, by name.
\<close>

theorem report_ordering_witness:
  "(\<exists>results. analyze example_api ''http://prom'' ''http://pyro'' True True [] DEFAULT_THRESHOLDS
        = Inr results
      \<and> map (\<lambda>r. (order_rank (severity r), service r)) results
          = [(0, ''bank-api''), (1, ''payments''), (2, ''ledger'')]
      \<and> sorted (map (\<lambda>r. (order_rank (severity r), service r)) results))
   \<and> (\<exists>results. health_main example_api ''http://prom'' = Inr results
      \<and> map (\<lambda>r. (health_order_rank (severity r), service r)) results
          = [(0, ''bank-api''), (2, ''ledger''), (2, ''payments'')]
      \<and> sorted (map (\<lambda>r. (health_order_rank (severity r), service r)) results))"
proof -
  note t = report_ordering[where a=example_api and prometheus="''http://prom''"
      and pyroscope="''http://pyro''" and prom_ok=True and pyro_ok=True
      and service_filter="[]" and thresholds=DEFAULT_THRESHOLDS]
  have e1: "map_sum id (map (\<lambda>r. (order_rank (severity r), service r)))
      (analyze example_api ''http://prom'' ''http://pyro'' True True [] DEFAULT_THRESHOLDS)
      = Inr [(0, ''bank-api''), (1, ''payments''), (2, ''ledger'')]"
    by code_simp
  have e2: "map_sum id (map (\<lambda>r. (health_order_rank (severity r), service r)))
      (health_main example_api ''http://prom'')
      = Inr [(0, ''bank-api''), (2, ''ledger''), (2, ''payments'')]"
    by code_simp
  from e1 obtain r1 where
    r1: "analyze example_api ''http://prom'' ''http://pyro'' True True [] DEFAULT_THRESHOLDS = Inr r1"
    by (cases "analyze example_api ''http://prom'' ''http://pyro'' True True [] DEFAULT_THRESHOLDS")
       auto
  from e2 obtain r2 where r2: "health_main example_api ''http://prom'' = Inr r2"
    by (cases "health_main example_api ''http://prom''") auto
  have m1: "map (\<lambda>r. (order_rank (severity r), service r)) r1
          = [(0, ''bank-api''), (1, ''payments''), (2, ''ledger'')]"
    using e1 unfolding r1 by simp
  have m2: "map (\<lambda>r. (health_order_rank (severity r), service r)) r2
          = [(0, ''bank-api''), (2, ''ledger''), (2, ''payments'')]"
    using e2 unfolding r2 by simp
  have s1: "sorted (map (\<lambda>r. (order_rank (severity r), service r)) r1)"
    using t r1 by blast
  have s2: "sorted (map (\<lambda>r. (health_order_rank (severity r), service r)) r2)"
    using t r2 by blast
  have a: "\<exists>results. analyze example_api ''http://prom'' ''http://pyro'' True True [] DEFAULT_THRESHOLDS
        = Inr results
      \<and> map (\<lambda>r. (order_rank (severity r), service r)) results
          = [(0, ''bank-api''), (1, ''payments''), (2, ''ledger'')]
      \<and> sorted (map (\<lambda>r. (order_rank (severity r), service r)) results)"
    by (rule exI[of _ r1]) (simp only: r1 m1[symmetric] s1 simp_thms)
  have b: "\<exists>results. health_main example_api ''http://prom'' = Inr results
      \<and> map (\<lambda>r. (health_order_rank (severity r), service r)) results
          = [(0, ''bank-api''), (2, ''ledger''), (2, ''payments'')]
      \<and> sorted (map (\<lambda>r. (health_order_rank (severity r), service r)) results)"
    by (rule exI[of _ r2]) (simp only: r2 m2[symmetric] s2 simp_thms)
  from a b show ?thesis by (rule conjI)
qed

section \<open>The health evaluation: one issue per crossed metric\<close>

lemma check_metric_levels:
  "map fst (check_metric m v shown) =
     (if v \<ge> crit (THRESHOLDS m) then [''CRITICAL'']
      else if v \<ge> warn (THRESHOLDS m) then [''WARNING''] else [])"
  by (simp add: check_metric_def Let_def)

lemma check_metric_about:
  "filter (\<lambda>i. issue_metric i = m') (check_metric m v shown) =
     (if m' = m then check_metric m v shown else [])"
  by (auto simp: check_metric_def Let_def issue_metric_def)

lemma evaluate_service_issues:
  "issues (evaluate_service a cpu_d pcts heap_used heap_max gc_d th_d svc) =
     check_metric CpuRate (dict_get cpu_d svc 0) (dict_get cpu_d svc 0)
   @ check_metric HeapPct (dict_get pcts svc 0) (dict_get pcts svc 0)
   @ check_metric GcRate (dict_get gc_d svc 0) (dict_get gc_d svc 0)
   @ check_metric Threads (dict_get th_d svc 0) (of_int (py_int (dict_get th_d svc 0)))"
  by (simp add: evaluate_service_def Let_def)

lemma evaluate_service_severity:
  "severity (evaluate_service a cpu_d pcts heap_used heap_max gc_d th_d svc) =
     (if ''CRITICAL'' \<in> fst ` set (issues (evaluate_service a cpu_d pcts heap_used heap_max gc_d th_d svc))
      then ''CRITICAL''
      else if ''WARNING'' \<in> fst ` set (issues (evaluate_service a cpu_d pcts heap_used heap_max gc_d th_d svc))
      then ''WARNING'' else ''OK'')"
proof -
  have ex: "list_ex (\<lambda>(s, _). s = l) xs = (l \<in> fst ` set xs)" for l :: string and xs :: "issue list"
    by (force simp: list_ex_iff image_iff)
  show ?thesis
    by (simp only: evaluate_service_def Let_def ex svc_result.simps health_result.simps)
qed

text \<open>
  Claim C7.  In the result of the evaluation of one service, the issues about a metric
  \<open>m\<close> are: a single \<^verbatim>\<open>CRITICAL\<close> issue when the value read for \<open>m\<close> reaches the crit
  cutoff of \<open>m\<close>; otherwise a single \<^verbatim>\<open>WARNING\<close> issue when it reaches the warn
  cutoff; otherwise none.  This holds for each of the four metrics whatever the others
  do, so every crossed metric is reported, and never twice.  The issues come in the
  order CPU, heap, GC, threads.  The status is \<^verbatim>\<open>CRITICAL\<close> if some issue is
  \<^verbatim>\<open>CRITICAL\<close>, else \<^verbatim>\<open>WARNING\<close> if some issue is \<^verbatim>\<open>WARNING\<close>, else \<^verbatim>\<open>OK\<close>.
\<close>

theorem health_issues_per_metric:
  "map fst (filter (\<lambda>i. issue_metric i = m)
              (issues (evaluate_service a cpu_d pcts heap_used heap_max gc_d th_d svc)))
     = (if reading cpu_d pcts gc_d th_d svc m \<ge> crit (THRESHOLDS m) then [''CRITICAL'']
        else if reading cpu_d pcts gc_d th_d svc m \<ge> warn (THRESHOLDS m) then [''WARNING'']
        else [])
   \<and> subseq (map issue_metric
               (issues (evaluate_service a cpu_d pcts heap_used heap_max gc_d th_d svc)))
        [CpuRate, HeapPct, GcRate, Threads]
   \<and> severity (evaluate_service a cpu_d pcts heap_used heap_max gc_d th_d svc) =
     (if ''CRITICAL'' \<in> fst ` set (issues (evaluate_service a cpu_d pcts heap_used heap_max
                                                gc_d th_d svc))
      then ''CRITICAL''
      else if ''WARNING'' \<in> fst ` set (issues (evaluate_service a cpu_d pcts heap_used heap_max
                                                    gc_d th_d svc))
      then ''WARNING'' else ''OK'')"
proof -
  have 1: "map fst (filter (\<lambda>i. issue_metric i = m)
              (issues (evaluate_service a cpu_d pcts heap_used heap_max gc_d th_d svc)))
     = (if reading cpu_d pcts gc_d th_d svc m \<ge> crit (THRESHOLDS m) then [''CRITICAL'']
        else if reading cpu_d pcts gc_d th_d svc m \<ge> warn (THRESHOLDS m) then [''WARNING'']
        else [])"
    unfolding evaluate_service_issues filter_append check_metric_about
    by (cases m) (simp_all add: check_metric_levels reading_def)
  have 2: "subseq (map issue_metric
               (issues (evaluate_service a cpu_d pcts heap_used heap_max gc_d th_d svc)))
        [CpuRate, HeapPct, GcRate, Threads]"
    unfolding evaluate_service_issues
    by (simp add: check_metric_def Let_def issue_metric_def)
  from 1 2 evaluate_service_severity[of a cpu_d pcts heap_used heap_max gc_d th_d svc]
  show ?thesis by (intro conjI)
qed

text \<open>
  The statement at work: a CPU rate of 0.9 and 120 threads are critical, a heap at 72%
  is a warning, the GC rate is fine; three issues are reported and the status is
  \<^verbatim>\<open>CRITICAL\<close>.
\<close>

theorem health_issues_per_metric_witness:
  "map (\<lambda>m. map fst (filter (\<lambda>i. issue_metric i = m)
              (issues (evaluate_service example_api [(''s'', 0.9)] [(''s'', 0.72)] [] []
                         [(''s'', 0.01)] [(''s'', 120)] ''s''))))
       [CpuRate, HeapPct, GcRate, Threads]
     = [[''CRITICAL''], [''WARNING''], [], [''CRITICAL'']]
   \<and> map fst (issues (evaluate_service example_api [(''s'', 0.9)] [(''s'', 0.72)] [] []
                         [(''s'', 0.01)] [(''s'', 120)] ''s''))
       = [''CRITICAL'', ''WARNING'', ''CRITICAL'']
   \<and> severity (evaluate_service example_api [(''s'', 0.9)] [(''s'', 0.72)] [] []
                         [(''s'', 0.01)] [(''s'', 120)] ''s'') = ''CRITICAL''"
proof -
  note t = health_issues_per_metric[where a=example_api and cpu_d="[(''s'', 0.9)]"
      and pcts="[(''s'', 0.72)]" and heap_used="[]" and heap_max="[]"
      and gc_d="[(''s'', 0.01)]" and th_d="[(''s'', 120)]" and svc="''s''"]
  have i: "map fst (issues (evaluate_service example_api [(''s'', 0.9)] [(''s'', 0.72)] [] []
                         [(''s'', 0.01)] [(''s'', 120)] ''s''))
       = [''CRITICAL'', ''WARNING'', ''CRITICAL'']"
    by (simp add: evaluate_service_issues check_metric_levels dict_get_def)
  have c: "''CRITICAL'' \<in> fst ` set (issues (evaluate_service example_api [(''s'', 0.9)]
               [(''s'', 0.72)] [] [] [(''s'', 0.01)] [(''s'', 120)] ''s''))"
    unfolding set_map[symmetric] i by simp
  have s: "severity (evaluate_service example_api [(''s'', 0.9)] [(''s'', 0.72)] [] []
                         [(''s'', 0.01)] [(''s'', 120)] ''s'') = ''CRITICAL''"
    using t[of CpuRate] c by simp
  have m: "map (\<lambda>m. map fst (filter (\<lambda>i. issue_metric i = m)
              (issues (evaluate_service example_api [(''s'', 0.9)] [(''s'', 0.72)] [] []
                         [(''s'', 0.01)] [(''s'', 120)] ''s''))))
       [CpuRate, HeapPct, GcRate, Threads]
     = [[''CRITICAL''], [''WARNING''], [], [''CRITICAL'']]"
    using t[of CpuRate] t[of HeapPct] t[of GcRate] t[of Threads]
    by (simp add: reading_def dict_get_def)
  from m i s show ?thesis by (intro conjI)
qed

section \<open>The flamebearer decoder\<close>

declare level_loop.simps [simp del]

lemma level_loop_stop: "\<not> i + 3 < length level \<Longrightarrow> level_loop nms level i m = Inr m"
  by (subst level_loop.simps) simp

lemma level_loop_skip:
  assumes "i + 3 < length level"
    and "\<not> (level ! (i + 3) < int (length nms) \<and> level ! (i + 2) > 0)"
  shows "level_loop nms level i m = level_loop nms level (i + 4) m"
  using assms by (subst level_loop.simps) (auto simp: Let_def)

lemma level_loop_add:
  assumes "i + 3 < length level"
    and "level ! (i + 3) < int (length nms) \<and> level ! (i + 2) > 0"
    and "py_index nms (level ! (i + 3)) = Inr nm"
  shows "level_loop nms level i m =
     level_loop nms level (i + 4) (dict_set nm (dict_get m nm 0 + level ! (i + 2)) m)"
  using assms by (subst level_loop.simps) (simp add: Let_def)

lemma level_loop_raise:
  assumes "i + 3 < length level"
    and "level ! (i + 3) < int (length nms) \<and> level ! (i + 2) > 0"
    and "py_index nms (level ! (i + 3)) = Inl e"
  shows "level_loop nms level i m = Inl e"
  using assms by (subst level_loop.simps) (simp add: Let_def)

lemma groups_of_4_short: "length xs < 4 \<Longrightarrow> groups_of_4 xs = []"
  by (induction xs rule: groups_of_4.induct) simp_all

lemma drop_four:
  assumes "i + 3 < length xs"
  shows "drop i xs = xs ! i # xs ! (i + 1) # xs ! (i + 2) # xs ! (i + 3) # drop (i + 4) xs"
proof -
  have "drop i xs = xs ! i # drop (Suc i) xs"
    using assms by (simp add: Cons_nth_drop_Suc)
  also have "drop (Suc i) xs = xs ! (i + 1) # drop (Suc (Suc i)) xs"
    using assms by (simp add: Cons_nth_drop_Suc)
  also have "drop (Suc (Suc i)) xs = xs ! (i + 2) # drop (Suc (Suc (Suc i))) xs"
    using assms by (simp add: Cons_nth_drop_Suc)
  also have "drop (Suc (Suc (Suc i))) xs = xs ! (i + 3) # drop (i + 4) xs"
    using assms Cons_nth_drop_Suc[of "i + 3" xs] by (simp add: numeral_eq_Suc)
  finally show ?thesis .
qed

lemma groups_of_4_drop:
  "groups_of_4 (drop i xs) =
     (if i + 3 < length xs
      then (xs ! i, xs ! (i + 1), xs ! (i + 2), xs ! (i + 3)) # groups_of_4 (drop (i + 4) xs)
      else [])"
proof (cases "i + 3 < length xs")
  case True
  then show ?thesis by (simp add: drop_four[OF True])
next
  case False
  then have "length (drop i xs) < 4" by simp
  with False show ?thesis by (simp add: groups_of_4_short)
qed

lemma dict_get_dict_set:
  "dict_get (dict_set k v d) k' dflt = (if k' = k then v else dict_get d k' dflt)"
  by (simp add: dict_get_def map_of_dict_set)

lemma keys_dict_set: "fst ` set (dict_set k v d) = insert k (fst ` set d)"
  by (simp add: dom_map_of_conv_image_fst[symmetric] map_of_dict_set)

lemma distinct_dict_set: "distinct (map fst d) \<Longrightarrow> distinct (map fst (dict_set k v d))"
  by (induction d) (auto simp: keys_dict_set)

lemma py_index_nonneg:
  "0 \<le> i \<Longrightarrow> i < int (length xs) \<Longrightarrow> py_index xs i = Inr (xs ! nat i)"
  by (simp add: py_index_def)

lemma level_loop_sums:
  assumes "\<forall>grp\<in>set (groups_of_4 (drop i level)). index_not_negative grp"
    and "distinct (map fst m)"
  shows "\<exists>m'. level_loop nms level i m = Inr m'
     \<and> distinct (map fst m')
     \<and> (\<forall>nm. dict_get m' nm 0 = dict_get m nm 0
            + sum_list (map group_self (filter (counts_for nms nm) (groups_of_4 (drop i level)))))
     \<and> fst ` set m' = fst ` set m
          \<union> {nm. \<exists>grp\<in>set (groups_of_4 (drop i level)). counts_for nms nm grp}"
  using assms
proof (induction nms level i m rule: level_loop.induct)
  case (1 nms level i m)
  show ?case
  proof (cases "i + 3 < length level")
    case False
    then show ?thesis
      using "1.prems" by (simp add: level_loop_stop groups_of_4_drop)
  next
    case True
    define name_idx where "name_idx = level ! (i + 3)"
    define self_val where "self_val = level ! (i + 2)"
    define grp0 where "grp0 = (level ! i, level ! (i + 1), self_val, name_idx)"
    have g: "groups_of_4 (drop i level) = grp0 # groups_of_4 (drop (i + 4) level)"
      using True by (simp add: groups_of_4_drop self_val_def name_idx_def grp0_def)
    have rest_ok: "\<forall>grp\<in>set (groups_of_4 (drop (i + 4) level)). index_not_negative grp"
      using "1.prems"(1) unfolding g by simp
    have here_ok: "self_val > 0 \<longrightarrow> 0 \<le> name_idx"
      using "1.prems"(1) unfolding g by (auto simp: index_not_negative_def grp0_def)
    show ?thesis
    proof (cases "name_idx < int (length nms) \<and> self_val > 0")
      case False
      have step: "level_loop nms level i m = level_loop nms level (i + 4) m"
        using level_loop_skip[OF True] False unfolding self_val_def name_idx_def by blast
      have nc: "\<not> counts_for nms nm grp0" for nm
        using False by (auto simp: counts_for_def grp0_def)
      from "1.IH"(2)[OF True name_idx_def self_val_def False rest_ok "1.prems"(2)]
      show ?thesis unfolding step g by (simp add: nc)
    next
      case hit: True
      then have idx: "0 \<le> name_idx" "name_idx < int (length nms)" and pos: "self_val > 0"
        using here_ok by auto
      define nm0 where "nm0 = nms ! nat name_idx"
      have pi: "py_index nms name_idx = Inr nm0"
        using idx by (simp add: py_index_nonneg nm0_def)
      define m1 where "m1 = dict_set nm0 (dict_get m nm0 0 + self_val) m"
      have step: "level_loop nms level i m = level_loop nms level (i + 4) m1"
        using level_loop_add[OF True, of nms nm0 m] hit pi
        unfolding self_val_def name_idx_def m1_def by blast
      have d1: "distinct (map fst m1)"
        unfolding m1_def by (rule distinct_dict_set[OF "1.prems"(2)])
      have cf: "counts_for nms nm grp0 = (nm = nm0)" for nm
        using idx pos by (auto simp: counts_for_def nm0_def grp0_def)
      have gs: "group_self grp0 = self_val"
        by (simp add: group_self_def grp0_def)
      from "1.IH"(1)[OF True name_idx_def self_val_def hit pi rest_ok[unfolded m1_def] ]
      have "\<exists>m'. level_loop nms level (i + 4) m1 = Inr m'
         \<and> distinct (map fst m')
         \<and> (\<forall>nm. dict_get m' nm 0 = dict_get m1 nm 0
            + sum_list (map group_self (filter (counts_for nms nm) (groups_of_4 (drop (i + 4) level)))))
         \<and> fst ` set m' = fst ` set m1
          \<union> {nm. \<exists>grp\<in>set (groups_of_4 (drop (i + 4) level)). counts_for nms nm grp}"
        using d1 unfolding m1_def by blast
      then obtain m' where m': "level_loop nms level (i + 4) m1 = Inr m'"
         "distinct (map fst m')"
         "\<forall>nm. dict_get m' nm 0 = dict_get m1 nm 0
            + sum_list (map group_self (filter (counts_for nms nm) (groups_of_4 (drop (i + 4) level))))"
         "fst ` set m' = fst ` set m1
          \<union> {nm. \<exists>grp\<in>set (groups_of_4 (drop (i + 4) level)). counts_for nms nm grp}"
        by blast
      have a: "\<forall>nm. dict_get m' nm 0 = dict_get m nm 0
            + sum_list (map group_self (filter (counts_for nms nm) (groups_of_4 (drop i level))))"
        unfolding g using m'(3)
        by (simp add: cf m1_def dict_get_dict_set gs)
      have b: "fst ` set m' = fst ` set m
          \<union> {nm. \<exists>grp\<in>set (groups_of_4 (drop i level)). counts_for nms nm grp}"
        unfolding g m'(4) by (auto simp: cf m1_def keys_dict_set)
      show ?thesis unfolding step using m'(1,2) a b by blast
    qed
  qed
qed

lemma levels_loop_sums:
  assumes "\<forall>grp\<in>set (concat (map groups_of_4 lvls)). index_not_negative grp"
    and "distinct (map fst m)"
  shows "\<exists>m'. levels_loop nms lvls m = Inr m'
     \<and> distinct (map fst m')
     \<and> (\<forall>nm. dict_get m' nm 0 = dict_get m nm 0
            + sum_list (map group_self
                 (filter (counts_for nms nm) (concat (map groups_of_4 lvls)))))
     \<and> fst ` set m' = fst ` set m
          \<union> {nm. \<exists>grp\<in>set (concat (map groups_of_4 lvls)). counts_for nms nm grp}"
  using assms
proof (induction lvls arbitrary: m)
  case Nil
  then show ?case by simp
next
  case (Cons level rest)
  have ok1: "\<forall>grp\<in>set (groups_of_4 (drop 0 level)). index_not_negative grp"
    using Cons.prems(1) by simp
  have ok2: "\<forall>grp\<in>set (concat (map groups_of_4 rest)). index_not_negative grp"
    using Cons.prems(1) by simp
  from level_loop_sums[OF ok1 Cons.prems(2), of nms] obtain m1 where
    m1: "level_loop nms level 0 m = Inr m1" "distinct (map fst m1)"
      "\<forall>nm. dict_get m1 nm 0 = dict_get m nm 0
            + sum_list (map group_self (filter (counts_for nms nm) (groups_of_4 level)))"
      "fst ` set m1 = fst ` set m
          \<union> {nm. \<exists>grp\<in>set (groups_of_4 level). counts_for nms nm grp}"
    by auto
  from Cons.IH[OF ok2 m1(2)] obtain m' where
    m': "levels_loop nms rest m1 = Inr m'" "distinct (map fst m')"
      "\<forall>nm. dict_get m' nm 0 = dict_get m1 nm 0
            + sum_list (map group_self
                 (filter (counts_for nms nm) (concat (map groups_of_4 rest))))"
      "fst ` set m' = fst ` set m1
          \<union> {nm. \<exists>grp\<in>set (concat (map groups_of_4 rest)). counts_for nms nm grp}"
    by blast
  have step: "levels_loop nms (level # rest) m = Inr m'"
    using m1(1) m'(1) by (simp add: and_then_def)
  have a: "\<forall>nm. dict_get m' nm 0 = dict_get m nm 0
            + sum_list (map group_self
                 (filter (counts_for nms nm) (concat (map groups_of_4 (level # rest)))))"
    using m1(3) m'(3) by simp
  have b: "fst ` set m' = fst ` set m
          \<union> {nm. \<exists>grp\<in>set (concat (map groups_of_4 (level # rest))). counts_for nms nm grp}"
    unfolding m'(4) m1(4) by auto
  from step m'(2) a b show ?case by blast
qed

text \<open>
  On profiles without a negative name index in a group that counts, the decoder does
  what claim C5 describes: it returns a dict with one entry per name that some complete
  group counts for, holding the sum of the self values of those groups over all levels.
\<close>

lemma self_times_sums:
  assumes "\<forall>grp\<in>set (concat (map groups_of_4 lvls)). index_not_negative grp"
  shows "\<exists>m. self_times nms lvls = Inr m
     \<and> distinct (map fst m)
     \<and> (\<forall>nm. dict_get m nm 0 = self_sum nms lvls nm)
     \<and> (\<forall>nm. nm \<in> fst ` set m \<longleftrightarrow>
              (\<exists>grp\<in>set (concat (map groups_of_4 lvls)). counts_for nms nm grp))"
proof -
  from levels_loop_sums[OF assms, of "[]" nms] obtain m where
    m: "levels_loop nms lvls [] = Inr m" "distinct (map fst m)"
      "\<forall>nm. dict_get m nm 0 = dict_get [] nm 0
            + sum_list (map group_self
                 (filter (counts_for nms nm) (concat (map groups_of_4 lvls))))"
      "fst ` set m = fst ` set ([] :: int dict)
          \<union> {nm. \<exists>grp\<in>set (concat (map groups_of_4 lvls)). counts_for nms nm grp}"
    by auto
  have a: "\<forall>nm. dict_get m nm 0 = self_sum nms lvls nm"
    using m(3) by (simp add: self_sum_def dict_get_def)
  have b: "\<forall>nm. nm \<in> fst ` set m \<longleftrightarrow>
              (\<exists>grp\<in>set (concat (map groups_of_4 lvls)). counts_for nms nm grp)"
    unfolding m(4) by simp
  from m(1,2) a b show ?thesis unfolding self_times_def by blast
qed

text \<open>
  Two levels with self values 100 and 50 for the same name give 150, and the trailing
  partial group of the last level is dropped.
\<close>

lemma self_times_accumulates:
  "self_times [''main'', ''work''] [[0, 150, 0, 0], [0, 100, 100, 1], [0, 50, 50, 1, 7, 7]]
     = Inr [(''work'', 150)]"
  by code_simp

text \<open>
  Claim C5 fails on the code.  A group with a positive self value and the name index
  \<open>-2\<close>, for a list of one name, passes the test \<^verbatim>\<open>name_idx < len(names)\<close>; the lookup
  \<^verbatim>\<open>names[-2]\<close> then raises \<^verbatim>\<open>IndexError\<close>, where the claim has the group contribute
  nothing (the sum for the only name is 0) without any error.  With two names and the
  index \<open>-1\<close> the self value is credited to the last name.
\<close>

theorem negative_name_index_raises:
  "self_times [''a''] [[0, 5, 5, -2]] = Inl IndexError
   \<and> flamegraph_main \<lparr>names = [''a''], levels = [[0, 5, 5, -2]], numTicks = 5\<rparr> = Inl IndexError
   \<and> self_sum [''a''] [[0, 5, 5, -2]] ''a'' = 0
   \<and> self_times [''a'', ''b''] [[0, 5, 5, -1]] = Inr [(''b'', 5)]
   \<and> self_sum [''a'', ''b''] [[0, 5, 5, -1]] ''b'' = 0"
  by code_simp

end
